theory Spec2Isabelle
  imports Complex_Main "HOL-Library.Word"
begin

section \<open>Sine-wave tone generation (generate\_tone.py)\<close>

text \<open>
  The development embeds \<^verbatim>\<open>generate_sine_wave\<close> of \<^verbatim>\<open>src/generate_tone.py\<close>.

  The function reads nothing but its arguments: no clock, no random number, no
  variable outside it and no existing file. The model is therefore a function of the
  arguments and of the float arithmetic.

  Integers. Python's unbounded integers are \<open>int\<close>.

  Floats. A Python float is an IEEE double: a finite number, an infinity or a
  not-a-number. The sign of an infinity has no influence on what the function does (both
  signs give the same exceptions), so the model keeps one infinite value. The
  arithmetic itself is a parameter of the model, a record \<open>float_arith\<close>: the function
  that rounds an exact result to a representable number, the largest finite float, the
  constant \<^verbatim>\<open>math.pi\<close> and the function \<^verbatim>\<open>math.sin\<close> on finite arguments. What the
  theorems need of these four is stated as hypotheses on them, in the predicates
  \<open>float_arith_ok\<close>, \<open>sine_odd\<close>, \<open>doubling_exact\<close> and \<open>float_accurate\<close>.
  The arguments frequency, duration and amplitude are floats (an integer such as 440
  is the float of the same value) and the sample rate is an integer. The theorems are
  about finite arguments, written \<open>Finite x\<close>.

  Errors. Every exception the function can raise is a value of \<open>error\<close>: the division
  \<^verbatim>\<open>i / sample_rate\<close> (ZeroDivisionError; OverflowError when the quotient is too
  large for a float), the conversion of an integer too large for a float
  (OverflowError), \<^verbatim>\<open>math.sin\<close> of an infinity (ValueError), \<^verbatim>\<open>int\<close> of an infinity
  (OverflowError) or of a not-a-number (ValueError), \<^verbatim>\<open>struct.pack\<close> of a value that
  does not fit its format (struct.error) and \<^verbatim>\<open>setframerate\<close> of a rate that is not
  positive (wave.Error).
\<close>

datatype error = ZeroDivisionError | OverflowError | ValueError | StructError | WaveError

subsection \<open>Float arithmetic\<close>

datatype pyfloat = Finite real | Infinite | NaN

record float_arith =
  fl_round :: "real \<Rightarrow> real"
  fl_max :: real
  fl_pi :: real
  fl_sin :: "real \<Rightarrow> real"

text \<open>The rounded result of an operation: an infinity when it exceeds the largest float.\<close>

definition fl_result :: "float_arith \<Rightarrow> real \<Rightarrow> pyfloat" where
  "fl_result F r = (if \<bar>r\<bar> \<le> fl_max F then Finite r else Infinite)"

text \<open>
  Float multiplication \<^verbatim>\<open>x * y\<close>: the rounded product of finite operands; a
  not-a-number operand, or an infinity times zero, gives a not-a-number; an infinity
  times anything else is an infinity.
\<close>

fun fmul :: "float_arith \<Rightarrow> pyfloat \<Rightarrow> pyfloat \<Rightarrow> pyfloat" where
  "fmul F (Finite x) (Finite y) = fl_result F (fl_round F (x * y))"
| "fmul F NaN y = NaN"
| "fmul F x NaN = NaN"
| "fmul F Infinite (Finite y) = (if y = 0 then NaN else Infinite)"
| "fmul F (Finite x) Infinite = (if x = 0 then NaN else Infinite)"
| "fmul F Infinite Infinite = Infinite"

text \<open>
  The conversion of a Python integer to a float, as in \<^verbatim>\<open>sample_rate * duration\<close>: the
  integer rounded, OverflowError when it is too large.
\<close>

definition float_of_int :: "float_arith \<Rightarrow> int \<Rightarrow> error + pyfloat" where
  "float_of_int F n =
     (let r = fl_round F (real_of_int n)
      in if \<bar>r\<bar> \<le> fl_max F then Inr (Finite r) else Inl OverflowError)"

text \<open>
  True division of two Python integers, \<^verbatim>\<open>a / b\<close>: the exact quotient rounded once;
  ZeroDivisionError for a zero divisor, OverflowError for a quotient too large.
\<close>

definition true_div :: "float_arith \<Rightarrow> int \<Rightarrow> int \<Rightarrow> error + pyfloat" where
  "true_div F a b =
     (if b = 0 then Inl ZeroDivisionError
      else
        let r = fl_round F (real_of_int a / real_of_int b)
        in if \<bar>r\<bar> \<le> fl_max F then Inr (Finite r) else Inl OverflowError)"

text \<open>\<^verbatim>\<open>math.sin(x)\<close>: ValueError on an infinity, a not-a-number on a not-a-number.\<close>

definition math_sin :: "float_arith \<Rightarrow> pyfloat \<Rightarrow> error + pyfloat" where
  "math_sin F v =
     (case v of
        Finite x \<Rightarrow> Inr (Finite (fl_sin F x))
      | Infinite \<Rightarrow> Inl ValueError
      | NaN \<Rightarrow> Inr NaN)"

text \<open>Truncation of a finite number toward zero.\<close>

definition int_of_float :: "real \<Rightarrow> int" where
  "int_of_float x = (if 0 \<le> x then \<lfloor>x\<rfloor> else \<lceil>x\<rceil>)"

text \<open>
  Python's \<^verbatim>\<open>int(x)\<close> on a float: truncation toward zero; OverflowError on an
  infinity, ValueError on a not-a-number.
\<close>

definition int_py :: "pyfloat \<Rightarrow> error + int" where
  "int_py v =
     (case v of
        Finite x \<Rightarrow> Inr (int_of_float x)
      | Infinite \<Rightarrow> Inl OverflowError
      | NaN \<Rightarrow> Inl ValueError)"

subsection \<open>Lines 13--23: the sample loop\<close>

text \<open>\<^verbatim>\<open>range(n)\<close>: the indices 0, ..., n - 1; empty when n is not positive.\<close>

definition range_py :: "int \<Rightarrow> nat list" where
  "range_py n = [0..<nat n]"

text \<open>
  The body of the loop (lines 19--22) for one index \<open>i\<close>. Python evaluates
  \<^verbatim>\<open>2 * math.pi * frequency * t\<close> from the left, rounding after each product.
\<close>

definition sample_value ::
  "float_arith \<Rightarrow> pyfloat \<Rightarrow> int \<Rightarrow> pyfloat \<Rightarrow> nat \<Rightarrow> error + int" where
  "sample_value F frequency sample_rate amplitude i =
     (case true_div F (int i) sample_rate of
        Inl e \<Rightarrow> Inl e
      | Inr t \<Rightarrow>
          (case math_sin F
                  (fmul F (fmul F (fmul F (Finite 2) (Finite (fl_pi F))) frequency) t) of
             Inl e \<Rightarrow> Inl e
           | Inr s \<Rightarrow>
               let sample = fmul F amplitude s
               in int_py (fmul F sample (Finite 32767))))"

text \<open>
  The loop \<^verbatim>\<open>for i in range(num_samples): ... samples.append(sample_int)\<close>, with the
  list \<open>samples\<close> built so far as accumulator. An exception leaves the loop.
\<close>

fun sample_loop ::
  "float_arith \<Rightarrow> pyfloat \<Rightarrow> int \<Rightarrow> pyfloat \<Rightarrow> nat list \<Rightarrow> int list \<Rightarrow> error + int list"
  where
  "sample_loop F frequency sample_rate amplitude [] samples = Inr samples"
| "sample_loop F frequency sample_rate amplitude (i # rest) samples =
     (case sample_value F frequency sample_rate amplitude i of
        Inl e \<Rightarrow> Inl e
      | Inr sample_int \<Rightarrow>
          sample_loop F frequency sample_rate amplitude rest (samples @ [sample_int]))"

text \<open>
  Lines 13--23 as a whole: the sample buffer of a tone. Line 13 multiplies the integer
  sample rate, converted to a float, by the duration, and truncates the rounded product.
\<close>

definition sine_samples ::
  "float_arith \<Rightarrow> pyfloat \<Rightarrow> pyfloat \<Rightarrow> int \<Rightarrow> pyfloat \<Rightarrow> error + int list" where
  "sine_samples F frequency duration sample_rate amplitude =
     (case float_of_int F sample_rate of
        Inl e \<Rightarrow> Inl e
      | Inr r \<Rightarrow>
          (case int_py (fmul F r duration) of
             Inl e \<Rightarrow> Inl e
           | Inr num_samples \<Rightarrow>
               sample_loop F frequency sample_rate amplitude (range_py num_samples) []))"

subsection \<open>Lines 26--36: writing the WAV file\<close>

type_synonym byte = "8 word"

text \<open>
  \<^verbatim>\<open>struct.pack('<h', v)\<close>: the two bytes of \<open>v\<close> in two's complement, low byte
  first; struct.error when \<open>v\<close> is not a signed 16-bit value.
\<close>

definition pack_h :: "int \<Rightarrow> error + byte list" where
  "pack_h v =
     (if - 32768 \<le> v \<and> v \<le> 32767
      then Inr [word_of_int v, word_of_int (v div 256)]
      else Inl StructError)"

text \<open>The data bytes of a buffer whose samples are all signed 16-bit values.\<close>

abbreviation frame_bytes :: "int list \<Rightarrow> byte list" where
  "frame_bytes samples \<equiv> concat (map (\<lambda>v. [word_of_int v, word_of_int (v div 256)]) samples)"

text \<open>
  The writer object of Python's standard \<^verbatim>\<open>wave\<close> module, which the function calls and
  which is not part of the repository. The record keeps what the module keeps: the
  parameters given to the setters, whether the header has been written, the data length
  that the header declares, the number of data bytes written, and the data bytes.
  The header is laid out by \<^verbatim>\<open>struct.pack\<close> with the unsigned 32-bit format
  \<^verbatim>\<open>L\<close> for the chunk sizes, the frame rate and the byte rate, and the unsigned
  16-bit format \<^verbatim>\<open>H\<close> for the channel count, the block size and the bit depth;
  a value outside its format raises struct.error.
\<close>

record wav_file =
  nchannels :: int
  sampwidth :: int
  framerate :: int
  headerwritten :: bool
  datalength :: int
  datawritten :: int
  frames :: "byte list"

definition pack_L_ok :: "int \<Rightarrow> bool" where
  "pack_L_ok v = (0 \<le> v \<and> v \<le> 4294967295)"

definition pack_H_ok :: "int \<Rightarrow> bool" where
  "pack_H_ok v = (0 \<le> v \<and> v \<le> 65535)"

text \<open>
  \<^verbatim>\<open>_write_header(initlength)\<close>: the header declares the data length computed from
  the first block of data, and the byte rate channels * rate * width.
\<close>

definition write_header :: "int \<Rightarrow> wav_file \<Rightarrow> error + wav_file" where
  "write_header initlength wav =
     (let nframes = initlength div (nchannels wav * sampwidth wav);
          dl = nframes * nchannels wav * sampwidth wav
      in if pack_L_ok (36 + dl) \<and> pack_H_ok (nchannels wav) \<and> pack_L_ok (framerate wav)
            \<and> pack_L_ok (nchannels wav * framerate wav * sampwidth wav)
            \<and> pack_H_ok (nchannels wav * sampwidth wav) \<and> pack_H_ok (sampwidth wav * 8)
            \<and> pack_L_ok dl
         then Inr (wav\<lparr>headerwritten := True, datalength := dl\<rparr>)
         else Inl StructError)"

definition ensure_header_written :: "int \<Rightarrow> wav_file \<Rightarrow> error + wav_file" where
  "ensure_header_written datasize wav =
     (if headerwritten wav then Inr wav else write_header datasize wav)"

text \<open>\<^verbatim>\<open>_patchheader()\<close>: rewrites the two chunk sizes of the header.\<close>

definition patchheader :: "wav_file \<Rightarrow> error + wav_file" where
  "patchheader wav =
     (if datawritten wav = datalength wav then Inr wav
      else if pack_L_ok (36 + datawritten wav) \<and> pack_L_ok (datawritten wav)
      then Inr (wav\<lparr>datalength := datawritten wav\<rparr>)
      else Inl StructError)"

text \<open>
  \<^verbatim>\<open>writeframes(data)\<close>: writes the header before the first data, appends the data,
  and patches the header when the declared length differs from the length written.
\<close>

definition writeframes :: "byte list \<Rightarrow> wav_file \<Rightarrow> error + wav_file" where
  "writeframes data wav =
     (case ensure_header_written (int (length data)) wav of
        Inl e \<Rightarrow> Inl e
      | Inr wav1 \<Rightarrow>
          let wav2 = wav1\<lparr>frames := frames wav1 @ data,
                          datawritten := datawritten wav1 + int (length data)\<rparr>
          in if datalength wav2 \<noteq> datawritten wav2 then patchheader wav2 else Inr wav2)"

text \<open>\<^verbatim>\<open>close()\<close>, called when the \<^verbatim>\<open>with\<close> block is left.\<close>

definition close_wav :: "wav_file \<Rightarrow> error + wav_file" where
  "close_wav wav =
     (case ensure_header_written 0 wav of
        Inl e \<Rightarrow> Inl e
      | Inr wav1 \<Rightarrow>
          if datalength wav1 \<noteq> datawritten wav1 then patchheader wav1 else Inr wav1)"

text \<open>
  Lines 33--34: \<^verbatim>\<open>for sample in samples: wav_file.writeframes(struct.pack('<h', sample))\<close>.
\<close>

fun write_samples :: "int list \<Rightarrow> wav_file \<Rightarrow> error + wav_file" where
  "write_samples [] wav = Inr wav"
| "write_samples (sample # rest) wav =
     (case pack_h sample of
        Inl e \<Rightarrow> Inl e
      | Inr bs \<Rightarrow>
          (case writeframes bs wav of
             Inl e \<Rightarrow> Inl e
           | Inr wav' \<Rightarrow> write_samples rest wav'))"

text \<open>
  Lines 27--34: opening the file for writing, the three setters, the write loop, and
  the close at the end of the \<^verbatim>\<open>with\<close> block. \<^verbatim>\<open>setframerate\<close> rejects a rate that is
  not positive.
\<close>

definition write_wav :: "int \<Rightarrow> int list \<Rightarrow> error + wav_file" where
  "write_wav sample_rate samples =
     (if sample_rate \<le> 0 then Inl WaveError
      else
        case write_samples samples
               \<lparr>nchannels = 1, sampwidth = 2, framerate = sample_rate,
                headerwritten = False, datalength = 0, datawritten = 0, frames = []\<rparr> of
          Inl e \<Rightarrow> Inl e
        | Inr wav \<Rightarrow> close_wav wav)"

text \<open>
  The whole function. Its result in the model is the file it leaves under the name it
  returns; the name itself, the f-string of line 26, is not modelled.
\<close>

definition generate_sine_wave ::
  "float_arith \<Rightarrow> pyfloat \<Rightarrow> pyfloat \<Rightarrow> int \<Rightarrow> pyfloat \<Rightarrow> error + wav_file" where
  "generate_sine_wave F frequency duration sample_rate amplitude =
     (case sine_samples F frequency duration sample_rate amplitude of
        Inl e \<Rightarrow> Inl e
      | Inr samples \<Rightarrow> write_wav sample_rate samples)"

subsection \<open>Reading a file back\<close>

text \<open>
  Modelled from the spec: the decoder of the round-trip property, a standard reader of
  mono 16-bit PCM, which is not part of the repository. It accepts a file whose header
  is written, declares one channel and two bytes per sample, and declares the length of
  the data that follows; it reads the data bytes two at a time as little-endian two's
  complement values (\<^verbatim>\<open>struct.unpack('<h', _)\<close>).
\<close>

definition unpack_h :: "byte \<Rightarrow> byte \<Rightarrow> int" where
  "unpack_h lo hi =
     (let u = uint lo + 256 * uint hi
      in if 32768 \<le> u then u - 65536 else u)"

fun read_frames :: "byte list \<Rightarrow> int list option" where
  "read_frames [] = Some []"
| "read_frames [b] = None"
| "read_frames (lo # hi # rest) =
     (case read_frames rest of
        None \<Rightarrow> None
      | Some samples \<Rightarrow> Some (unpack_h lo hi # samples))"

definition decode :: "wav_file \<Rightarrow> int list option" where
  "decode wav =
     (if headerwritten wav \<and> nchannels wav = 1 \<and> sampwidth wav = 2
         \<and> datalength wav = int (length (frames wav))
      then read_frames (frames wav) else None)"

subsection \<open>Hypotheses on the float arithmetic\<close>

text \<open>
  What IEEE doubles with rounding to nearest provide, and what is assumed of the
  library's sine: rounding is monotone, odd, and leaves the integers up to \<open>2^53\<close>
  unchanged; these integers are finite floats; the sine stays within [-1, 1] and is 0
  at 0; \<^verbatim>\<open>math.pi\<close> lies between 0 and 4.
\<close>

definition float_arith_ok :: "float_arith \<Rightarrow> bool" where
  "float_arith_ok F =
     ((\<forall>x y. x \<le> y \<longrightarrow> fl_round F x \<le> fl_round F y)
      \<and> (\<forall>n :: int. \<bar>n\<bar> \<le> 2 ^ 53 \<longrightarrow> fl_round F (real_of_int n) = real_of_int n)
      \<and> (\<forall>x. fl_round F (- x) = - fl_round F x)
      \<and> 2 ^ 53 \<le> fl_max F
      \<and> (\<forall>x. \<bar>fl_sin F x\<bar> \<le> 1)
      \<and> fl_sin F 0 = 0
      \<and> 0 \<le> fl_pi F \<and> fl_pi F \<le> 4)"

text \<open>The library's sine is an odd function.\<close>

definition sine_odd :: "float_arith \<Rightarrow> bool" where
  "sine_odd F = (\<forall>x. fl_sin F (- x) = - fl_sin F x)"

text \<open>
  Doubling is exact on normal numbers (of magnitude at least \<open>2^-1022\<close>, itself a
  float), and rounding never more than doubles a magnitude.
\<close>

definition doubling_exact :: "float_arith \<Rightarrow> bool" where
  "doubling_exact F =
     ((\<forall>x. 1 / 2 ^ 1022 \<le> \<bar>x\<bar> \<longrightarrow> fl_round F (2 * x) = 2 * fl_round F x)
      \<and> fl_round F (1 / 2 ^ 1022) = 1 / 2 ^ 1022
      \<and> (\<forall>x. \<bar>fl_round F x\<bar> \<le> 2 * \<bar>x\<bar>))"

text \<open>
  Accuracy: rounding a number of magnitude at least \<open>2^-20\<close> has a relative error of at
  most \<open>2^-52\<close>; \<^verbatim>\<open>math.pi\<close> is within \<open>2^-50\<close> of pi; the library's sine is within
  \<open>2^-50\<close> of the sine on arguments of magnitude at most 2.
\<close>

definition float_accurate :: "float_arith \<Rightarrow> bool" where
  "float_accurate F =
     ((\<forall>x. 1 / 2 ^ 20 \<le> \<bar>x\<bar> \<longrightarrow> \<bar>fl_round F x - x\<bar> \<le> \<bar>x\<bar> / 2 ^ 52)
      \<and> \<bar>fl_pi F - pi\<bar> \<le> 1 / 2 ^ 50
      \<and> (\<forall>x. \<bar>x\<bar> \<le> 2 \<longrightarrow> \<bar>fl_sin F x - sin x\<bar> \<le> 1 / 2 ^ 50))"

text \<open>
  The arithmetic without rounding error, at which concrete calls are evaluated below.
  The inputs evaluated there are dyadic numbers and angles at multiples of a quarter
  turn, where IEEE doubles give the same samples.
\<close>

definition exact_arith :: float_arith where
  "exact_arith =
     \<lparr>fl_round = (\<lambda>x. x), fl_max = 2 ^ 1024 - 2 ^ 971, fl_pi = pi, fl_sin = sin\<rparr>"

subsection \<open>The spec's vocabulary\<close>

text \<open>
  A valid ToneSpec: frequency and duration positive, the sample rate a positive
  integer, the amplitude in (0, 1].
\<close>

definition valid_tone_spec :: "real \<Rightarrow> real \<Rightarrow> int \<Rightarrow> real \<Rightarrow> bool" where
  "valid_tone_spec frequency duration sample_rate amplitude =
     (0 < frequency \<and> 0 < duration \<and> 0 < sample_rate \<and> 0 < amplitude \<and> amplitude \<le> 1)"

text \<open>
  The values the loop body computes at index \<open>i\<close> when nothing overflows: the angle
  given to the sine, the sine value, the value given to \<^verbatim>\<open>int\<close>, and the sample.
\<close>

definition angle :: "float_arith \<Rightarrow> real \<Rightarrow> int \<Rightarrow> nat \<Rightarrow> real" where
  "angle F frequency sample_rate i =
     fl_round F (fl_round F (fl_round F (2 * fl_pi F) * frequency)
                 * fl_round F (real i / real_of_int sample_rate))"

definition scaled :: "float_arith \<Rightarrow> real \<Rightarrow> int \<Rightarrow> real \<Rightarrow> nat \<Rightarrow> real" where
  "scaled F frequency sample_rate amplitude i =
     fl_round F (fl_round F (amplitude * fl_sin F (angle F frequency sample_rate i)) * 32767)"

definition quantized :: "float_arith \<Rightarrow> real \<Rightarrow> int \<Rightarrow> real \<Rightarrow> nat \<Rightarrow> int" where
  "quantized F frequency sample_rate amplitude i =
     int_of_float (scaled F frequency sample_rate amplitude i)"

text \<open>
  The loop body returns at index \<open>i\<close> exactly when the divisor is not zero and every
  intermediate result is a finite float.
\<close>

definition sample_finite :: "float_arith \<Rightarrow> real \<Rightarrow> int \<Rightarrow> real \<Rightarrow> nat \<Rightarrow> bool" where
  "sample_finite F frequency sample_rate amplitude i =
     (sample_rate \<noteq> 0
      \<and> \<bar>fl_round F (real i / real_of_int sample_rate)\<bar> \<le> fl_max F
      \<and> \<bar>fl_round F (2 * fl_pi F)\<bar> \<le> fl_max F
      \<and> \<bar>fl_round F (fl_round F (2 * fl_pi F) * frequency)\<bar> \<le> fl_max F
      \<and> \<bar>angle F frequency sample_rate i\<bar> \<le> fl_max F
      \<and> \<bar>fl_round F (amplitude * fl_sin F (angle F frequency sample_rate i))\<bar> \<le> fl_max F
      \<and> \<bar>scaled F frequency sample_rate amplitude i\<bar> \<le> fl_max F)"

text \<open>
  The number of samples that line 13 computes when the product is finite, and the
  condition for it to be finite.
\<close>

definition sample_count :: "float_arith \<Rightarrow> real \<Rightarrow> int \<Rightarrow> nat" where
  "sample_count F duration sample_rate =
     nat (int_of_float (fl_round F (fl_round F (real_of_int sample_rate) * duration)))"

definition count_finite :: "float_arith \<Rightarrow> real \<Rightarrow> int \<Rightarrow> bool" where
  "count_finite F duration sample_rate =
     (\<bar>fl_round F (real_of_int sample_rate)\<bar> \<le> fl_max F
      \<and> \<bar>fl_round F (fl_round F (real_of_int sample_rate) * duration)\<bar> \<le> fl_max F)"

text \<open>
  The sample as the spec words it: the exact scaled sine value rounded to the nearest
  integer and clamped to the signed 16-bit range. It is compared with the code's value
  below.
\<close>

definition spec_sample :: "real \<Rightarrow> int \<Rightarrow> real \<Rightarrow> nat \<Rightarrow> int" where
  "spec_sample frequency sample_rate amplitude i =
     max (- 32768) (min 32767
       (round (amplitude * sin (2 * pi * frequency * (real i / real_of_int sample_rate)) * 32767)))"

text \<open>A buffer that does not oscillate: its samples never take both signs.\<close>

definition non_oscillating :: "int list \<Rightarrow> bool" where
  "non_oscillating samples =
     (list_all (\<lambda>s. 0 \<le> s) samples \<or> list_all (\<lambda>s. s \<le> 0) samples)"

section \<open>The sample loop\<close>

subsection \<open>When each operation returns\<close>

lemma fmul_Finite_iff:
  "fmul F u v = Finite r \<longleftrightarrow>
     (\<exists>x y. u = Finite x \<and> v = Finite y \<and> r = fl_round F (x * y)
        \<and> \<bar>fl_round F (x * y)\<bar> \<le> fl_max F)"
  by (cases "(F, u, v)" rule: fmul.cases) (auto simp add: fl_result_def)

lemma fmul_Finite:
  "\<bar>fl_round F (x * y)\<bar> \<le> fl_max F \<Longrightarrow>
   fmul F (Finite x) (Finite y) = Finite (fl_round F (x * y))"
  by (simp add: fl_result_def)

declare fmul.simps [simp del]

lemma int_py_Inr_iff:
  "int_py v = Inr n \<longleftrightarrow> (\<exists>x. v = Finite x \<and> n = int_of_float x)"
  by (cases v) (auto simp add: int_py_def)

lemma math_sin_Finite_iff:
  "math_sin F v = Inr (Finite s) \<longleftrightarrow> (\<exists>x. v = Finite x \<and> s = fl_sin F x)"
  by (cases v) (auto simp add: math_sin_def)

lemma true_div_Inr_iff:
  "true_div F a b = Inr t \<longleftrightarrow>
     b \<noteq> 0 \<and> t = Finite (fl_round F (real_of_int a / real_of_int b))
     \<and> \<bar>fl_round F (real_of_int a / real_of_int b)\<bar> \<le> fl_max F"
  by (auto simp add: true_div_def Let_def)

lemma float_of_int_Inr_iff:
  "float_of_int F n = Inr r \<longleftrightarrow>
     r = Finite (fl_round F (real_of_int n)) \<and> \<bar>fl_round F (real_of_int n)\<bar> \<le> fl_max F"
  by (auto simp add: float_of_int_def Let_def)

lemma sample_value_Inr:
  "sample_value F (Finite frequency) sample_rate (Finite amplitude) i = Inr v \<longleftrightarrow>
     sample_finite F frequency sample_rate amplitude i
     \<and> v = quantized F frequency sample_rate amplitude i"
proof
  assume h: "sample_value F (Finite frequency) sample_rate (Finite amplitude) i = Inr v"
  from h obtain t where
    t: "true_div F (int i) sample_rate = Inr t"
    by (auto simp add: sample_value_def split: sum.splits)
  from h t obtain s where
    s: "math_sin F (fmul F (fmul F (fmul F (Finite 2) (Finite (fl_pi F))) (Finite frequency)) t)
          = Inr s"
    by (auto simp add: sample_value_def split: sum.splits)
  from h t s have
    r: "int_py (fmul F (fmul F (Finite amplitude) s) (Finite 32767)) = Inr v"
    by (simp add: sample_value_def)
  from r obtain x where
    x: "fmul F (fmul F (Finite amplitude) s) (Finite 32767) = Finite x" and vx: "v = int_of_float x"
    by (auto simp add: int_py_Inr_iff)
  from x obtain y where
    y: "fmul F (Finite amplitude) s = Finite y" and xy: "x = fl_round F (y * 32767)"
    and xb: "\<bar>fl_round F (y * 32767)\<bar> \<le> fl_max F"
    by (auto simp add: fmul_Finite_iff)
  from y obtain s' where
    s': "s = Finite s'" and ys: "y = fl_round F (amplitude * s')"
    and yb: "\<bar>fl_round F (amplitude * s')\<bar> \<le> fl_max F"
    by (auto simp add: fmul_Finite_iff)
  from s s' obtain a where
    a: "fmul F (fmul F (fmul F (Finite 2) (Finite (fl_pi F))) (Finite frequency)) t = Finite a"
    and sa: "s' = fl_sin F a"
    by (auto simp add: math_sin_Finite_iff)
  from a obtain m t' where
    m: "fmul F (fmul F (Finite 2) (Finite (fl_pi F))) (Finite frequency) = Finite m"
    and tt: "t = Finite t'" and am: "a = fl_round F (m * t')"
    and ab: "\<bar>fl_round F (m * t')\<bar> \<le> fl_max F"
    by (auto simp add: fmul_Finite_iff)
  from m obtain p where
    p: "fmul F (Finite 2) (Finite (fl_pi F)) = Finite p" and mp: "m = fl_round F (p * frequency)"
    and mb: "\<bar>fl_round F (p * frequency)\<bar> \<le> fl_max F"
    by (auto simp add: fmul_Finite_iff)
  from p have pp: "p = fl_round F (2 * fl_pi F)" and pb: "\<bar>fl_round F (2 * fl_pi F)\<bar> \<le> fl_max F"
    by (auto simp add: fmul_Finite_iff)
  from t tt have sr: "sample_rate \<noteq> 0"
    and t': "t' = fl_round F (real i / real_of_int sample_rate)"
    and tb: "\<bar>fl_round F (real i / real_of_int sample_rate)\<bar> \<le> fl_max F"
    by (auto simp add: true_div_Inr_iff)
  have ang: "a = angle F frequency sample_rate i"
    by (simp add: angle_def am mp pp t')
  have sc: "x = scaled F frequency sample_rate amplitude i"
    by (simp add: scaled_def xy ys sa ang)
  have "sample_finite F frequency sample_rate amplitude i"
    unfolding sample_finite_def
    using sr tb pb mb ab yb xb
    by (simp add: ang [symmetric] sc [symmetric] am mp pp t' xy ys sa)
  moreover have "v = quantized F frequency sample_rate amplitude i"
    by (simp add: quantized_def vx sc)
  ultimately show "sample_finite F frequency sample_rate amplitude i
     \<and> v = quantized F frequency sample_rate amplitude i" by simp
next
  assume h: "sample_finite F frequency sample_rate amplitude i
     \<and> v = quantized F frequency sample_rate amplitude i"
  then have f: "sample_finite F frequency sample_rate amplitude i"
    and v: "v = quantized F frequency sample_rate amplitude i" by simp_all
  from f have t: "true_div F (int i) sample_rate
                    = Inr (Finite (fl_round F (real i / real_of_int sample_rate)))"
    by (simp add: sample_finite_def true_div_def)
  from f have p: "fmul F (Finite 2) (Finite (fl_pi F)) = Finite (fl_round F (2 * fl_pi F))"
    by (simp add: sample_finite_def fmul_Finite)
  from f have m: "fmul F (Finite (fl_round F (2 * fl_pi F))) (Finite frequency)
                    = Finite (fl_round F (fl_round F (2 * fl_pi F) * frequency))"
    by (simp add: sample_finite_def fmul_Finite)
  from f have a: "fmul F (Finite (fl_round F (fl_round F (2 * fl_pi F) * frequency)))
                        (Finite (fl_round F (real i / real_of_int sample_rate)))
                    = Finite (angle F frequency sample_rate i)"
    by (simp add: sample_finite_def fmul_Finite angle_def)
  from f have y: "fmul F (Finite amplitude) (Finite (fl_sin F (angle F frequency sample_rate i)))
                    = Finite (fl_round F (amplitude * fl_sin F (angle F frequency sample_rate i)))"
    by (simp add: sample_finite_def fmul_Finite)
  from f have x: "fmul F (Finite (fl_round F (amplitude * fl_sin F (angle F frequency sample_rate i))))
                        (Finite 32767)
                    = Finite (scaled F frequency sample_rate amplitude i)"
    by (simp add: sample_finite_def fmul_Finite scaled_def)
  show "sample_value F (Finite frequency) sample_rate (Finite amplitude) i = Inr v"
    by (simp only: sample_value_def t p m a y x math_sin_def int_py_def v quantized_def
        sum.case pyfloat.case Let_def)
qed

lemma sample_loop_Inr:
  "sample_loop F (Finite frequency) sample_rate (Finite amplitude) idx acc = Inr samples \<longleftrightarrow>
     (\<forall>i \<in> set idx. sample_finite F frequency sample_rate amplitude i)
     \<and> samples = acc @ map (quantized F frequency sample_rate amplitude) idx"
proof (induction idx arbitrary: acc)
  case Nil
  show ?case by auto
next
  case (Cons i rest)
  show ?case
  proof (cases "sample_value F (Finite frequency) sample_rate (Finite amplitude) i")
    case (Inl e)
    then have "\<not> sample_finite F frequency sample_rate amplitude i"
      using sample_value_Inr [of F frequency sample_rate amplitude i] by auto
    with Inl show ?thesis by simp
  next
    case (Inr v)
    then have "sample_finite F frequency sample_rate amplitude i"
      and "v = quantized F frequency sample_rate amplitude i"
      using sample_value_Inr [of F frequency sample_rate amplitude i v] by auto
    with Inr Cons.IH [of "acc @ [v]"] show ?thesis by auto
  qed
qed

lemma sine_samples_Inr:
  "sine_samples F (Finite frequency) (Finite duration) sample_rate (Finite amplitude) = Inr samples \<longleftrightarrow>
     count_finite F duration sample_rate
     \<and> (\<forall>i < sample_count F duration sample_rate.
           sample_finite F frequency sample_rate amplitude i)
     \<and> samples = map (quantized F frequency sample_rate amplitude)
                   [0..<sample_count F duration sample_rate]"
proof (cases "count_finite F duration sample_rate")
  case True
  then have r: "float_of_int F sample_rate = Inr (Finite (fl_round F (real_of_int sample_rate)))"
    by (simp add: count_finite_def float_of_int_def)
  show ?thesis
    using True
    by (auto simp add: sine_samples_def r count_finite_def fmul_Finite int_py_def range_py_def
        sample_count_def sample_loop_Inr)
next
  case False
  have "sine_samples F (Finite frequency) (Finite duration) sample_rate (Finite amplitude) \<noteq> Inr samples"
  proof
    assume h: "sine_samples F (Finite frequency) (Finite duration) sample_rate (Finite amplitude) = Inr samples"
    then obtain r where r: "float_of_int F sample_rate = Inr r"
      by (auto simp add: sine_samples_def split: sum.splits)
    with h obtain n where n: "int_py (fmul F r (Finite duration)) = Inr n"
      by (auto simp add: sine_samples_def split: sum.splits)
    from r have "r = Finite (fl_round F (real_of_int sample_rate))"
      and "\<bar>fl_round F (real_of_int sample_rate)\<bar> \<le> fl_max F"
      by (auto simp add: float_of_int_Inr_iff)
    moreover from n obtain x where "fmul F r (Finite duration) = Finite x"
      by (auto simp add: int_py_Inr_iff)
    ultimately have "count_finite F duration sample_rate"
      by (auto simp add: count_finite_def fmul_Finite_iff)
    with False show False by simp
  qed
  with False show ?thesis by simp
qed

subsection \<open>Truncation toward zero\<close>

lemma int_of_float_zero: "int_of_float 0 = 0"
  by (simp add: int_of_float_def)

lemma int_of_float_minus: "int_of_float (- x) = - int_of_float x"
  unfolding int_of_float_def by (simp add: ceiling_minus floor_minus)

lemma int_of_float_nonneg: "0 \<le> x \<Longrightarrow> int_of_float x = \<lfloor>x\<rfloor>"
  by (simp add: int_of_float_def)

lemma int_of_float_of_int: "int_of_float (real_of_int n) = n"
  by (simp add: int_of_float_def)

lemma int_of_float_mono:
  assumes "x \<le> y"
  shows "int_of_float x \<le> int_of_float y"
proof (cases "0 \<le> x")
  case True
  then have "0 \<le> y" using assms by simp
  then show ?thesis using True assms by (simp add: int_of_float_def floor_mono)
next
  case False
  show ?thesis
  proof (cases "0 \<le> y")
    case True
    have "\<lceil>x\<rceil> \<le> 0" using False by (simp add: ceiling_le_iff)
    moreover have "0 \<le> \<lfloor>y\<rfloor>" using True by simp
    ultimately have "\<lceil>x\<rceil> \<le> \<lfloor>y\<rfloor>" by (rule order_trans)
    then show ?thesis using False True by (simp add: int_of_float_def)
  next
    case nonneg: False
    then show ?thesis using False assms by (simp add: int_of_float_def ceiling_mono)
  qed
qed

lemma int_of_float_round: "\<bar>int_of_float x - round x\<bar> \<le> 1"
  unfolding int_of_float_def round_def by (cases "0 \<le> x") (simp_all, linarith+)

lemma int_of_float_double: "\<bar>int_of_float (2 * x) - 2 * int_of_float x\<bar> \<le> 1"
  unfolding int_of_float_def by (cases "0 \<le> x") (simp_all, linarith+)

lemma int_of_float_small: "\<bar>x\<bar> < 1 \<Longrightarrow> int_of_float x = 0"
  unfolding int_of_float_def by (cases "0 \<le> x") (simp_all, linarith+)

subsection \<open>Rounding\<close>

lemma round_mono: "float_arith_ok F \<Longrightarrow> x \<le> y \<Longrightarrow> fl_round F x \<le> fl_round F y"
  by (simp add: float_arith_ok_def)

lemma round_int:
  "float_arith_ok F \<Longrightarrow> \<bar>n\<bar> \<le> 2 ^ 53 \<Longrightarrow> fl_round F (real_of_int n) = real_of_int n"
  by (simp add: float_arith_ok_def)

lemma round_minus: "float_arith_ok F \<Longrightarrow> fl_round F (- x) = - fl_round F x"
  by (simp add: float_arith_ok_def)

lemma round_zero: "float_arith_ok F \<Longrightarrow> fl_round F 0 = 0"
  using round_int [of F 0] by simp

text \<open>Rounding does not leave an interval whose ends are integers up to \<open>2^53\<close>.\<close>

lemma round_between:
  assumes "float_arith_ok F" and "\<bar>m\<bar> \<le> 2 ^ 53" and "\<bar>n\<bar> \<le> 2 ^ 53"
    and "real_of_int m \<le> x" and "x \<le> real_of_int n"
  shows "real_of_int m \<le> fl_round F x" and "fl_round F x \<le> real_of_int n"
proof -
  have "fl_round F (real_of_int m) \<le> fl_round F x"
    by (rule round_mono [OF assms(1,4)])
  then show "real_of_int m \<le> fl_round F x"
    by (simp add: round_int [OF assms(1,2)])
  have "fl_round F x \<le> fl_round F (real_of_int n)"
    by (rule round_mono [OF assms(1,5)])
  then show "fl_round F x \<le> real_of_int n"
    by (simp add: round_int [OF assms(1,3)])
qed

lemma round_abs_le:
  assumes "float_arith_ok F" and "0 \<le> n" and "n \<le> 2 ^ 53" and "\<bar>x\<bar> \<le> real_of_int n"
  shows "\<bar>fl_round F x\<bar> \<le> real_of_int n"
proof -
  have "real_of_int (- n) \<le> x" and "x \<le> real_of_int n"
    using assms(4) by simp_all
  moreover have "\<bar>- n\<bar> \<le> 2 ^ 53" and "\<bar>n\<bar> \<le> 2 ^ 53"
    using assms(2,3) by simp_all
  ultimately have "real_of_int (- n) \<le> fl_round F x" and "fl_round F x \<le> real_of_int n"
    using round_between [OF assms(1), of "- n" n x] by blast+
  then show ?thesis by simp
qed

lemma round_finite:
  assumes "float_arith_ok F" and "0 \<le> n" and "n \<le> 2 ^ 53" and "\<bar>x\<bar> \<le> real_of_int n"
  shows "\<bar>fl_round F x\<bar> \<le> fl_max F"
proof -
  have "\<bar>fl_round F x\<bar> \<le> real_of_int n"
    by (rule round_abs_le [OF assms])
  also have "\<dots> \<le> 2 ^ 53" using assms(3) by (simp add: of_int_le_numeral_power_cancel_iff)
  also have "\<dots> \<le> fl_max F" using assms(1) by (simp add: float_arith_ok_def)
  finally show ?thesis .
qed

subsection \<open>Bounds on the samples\<close>

lemma scaled_bound:
  assumes "float_arith_ok F" and "\<bar>amplitude\<bar> \<le> 1"
  shows "\<bar>scaled F frequency sample_rate amplitude i\<bar> \<le> 32767"
proof -
  let ?s = "fl_sin F (angle F frequency sample_rate i)"
  have "\<bar>?s\<bar> \<le> 1" using assms(1) by (simp add: float_arith_ok_def)
  then have "\<bar>amplitude * ?s\<bar> \<le> 1 * 1"
    unfolding abs_mult using assms(2) by (intro mult_mono) simp_all
  then have "\<bar>amplitude * ?s\<bar> \<le> real_of_int 1" by simp
  then have "\<bar>fl_round F (amplitude * ?s)\<bar> \<le> real_of_int 1"
    by (intro round_abs_le [OF assms(1)]) simp_all
  then have "\<bar>fl_round F (amplitude * ?s) * 32767\<bar> \<le> real_of_int 32767"
    by (simp add: abs_mult)
  then have "\<bar>fl_round F (fl_round F (amplitude * ?s) * 32767)\<bar> \<le> real_of_int 32767"
    by (intro round_abs_le [OF assms(1)]) simp_all
  then show ?thesis by (simp add: scaled_def)
qed

lemma int_of_float_abs_le: "\<bar>real_of_int (int_of_float x)\<bar> \<le> \<bar>x\<bar>"
proof (cases "0 \<le> x")
  case True
  then have "0 \<le> \<lfloor>x\<rfloor>" by simp
  moreover have "real_of_int \<lfloor>x\<rfloor> \<le> x" by simp
  ultimately show ?thesis using True by (simp add: int_of_float_def)
next
  case False
  then have "\<lceil>x\<rceil> \<le> 0" by (simp add: ceiling_le_iff)
  moreover have "x \<le> real_of_int \<lceil>x\<rceil>" by simp
  ultimately show ?thesis using False by (simp add: int_of_float_def)
qed

lemma quantized_range:
  assumes "float_arith_ok F" and "\<bar>amplitude\<bar> \<le> 1"
  shows "- 32767 \<le> quantized F frequency sample_rate amplitude i"
    and "quantized F frequency sample_rate amplitude i \<le> 32767"
proof -
  have "\<bar>real_of_int (quantized F frequency sample_rate amplitude i)\<bar>
          \<le> \<bar>scaled F frequency sample_rate amplitude i\<bar>"
    unfolding quantized_def by (rule int_of_float_abs_le)
  also have "\<dots> \<le> 32767" by (rule scaled_bound [OF assms])
  finally have "\<bar>quantized F frequency sample_rate amplitude i\<bar> \<le> 32767" by linarith
  then show "- 32767 \<le> quantized F frequency sample_rate amplitude i"
    and "quantized F frequency sample_rate amplitude i \<le> 32767" by simp_all
qed

subsection \<open>Length and indexing of the buffer\<close>

lemma sine_samples_length:
  "sine_samples F (Finite frequency) (Finite duration) sample_rate (Finite amplitude) = Inr samples \<Longrightarrow>
   length samples = sample_count F duration sample_rate"
  by (simp add: sine_samples_Inr)

lemma sine_samples_nth:
  "sine_samples F (Finite frequency) (Finite duration) sample_rate (Finite amplitude) = Inr samples \<Longrightarrow>
   i < length samples \<Longrightarrow>
   samples ! i = quantized F frequency sample_rate amplitude i"
  by (simp add: sine_samples_Inr)

lemma sine_samples_elem:
  "sine_samples F (Finite frequency) (Finite duration) sample_rate (Finite amplitude) = Inr samples \<Longrightarrow>
   s \<in> set samples \<Longrightarrow> \<exists>i. s = quantized F frequency sample_rate amplitude i"
  by (auto simp add: sine_samples_Inr)

subsection \<open>The arithmetic without rounding error\<close>

lemma exact_arith_ok: "float_arith_ok exact_arith"
  using pi_ge_zero pi_less_4 by (simp add: float_arith_ok_def exact_arith_def)

lemma exact_sine_odd: "sine_odd exact_arith"
  by (simp add: sine_odd_def exact_arith_def)

lemma exact_doubling: "doubling_exact exact_arith"
  by (simp add: doubling_exact_def exact_arith_def)

lemma exact_accurate: "float_accurate exact_arith"
  by (simp add: float_accurate_def exact_arith_def)

lemma exact_round: "fl_round exact_arith x = x"
  by (simp add: exact_arith_def)

lemma exact_sin: "fl_sin exact_arith x = sin x"
  by (simp add: exact_arith_def)

lemma exact_pi: "fl_pi exact_arith = pi"
  by (simp add: exact_arith_def)

lemma exact_finite: "\<bar>x\<bar> \<le> 2 ^ 53 \<Longrightarrow> \<bar>x\<bar> \<le> fl_max exact_arith"
  by (simp add: exact_arith_def)

lemma exact_angle:
  "angle exact_arith frequency sample_rate i
     = 2 * pi * frequency * (real i / real_of_int sample_rate)"
  by (simp add: angle_def exact_round exact_pi)

lemma exact_scaled:
  "scaled exact_arith frequency sample_rate amplitude i
     = amplitude * sin (2 * pi * frequency * (real i / real_of_int sample_rate)) * 32767"
  by (simp add: scaled_def exact_angle exact_round exact_sin)

lemma exact_quantized:
  "quantized exact_arith frequency sample_rate amplitude i
     = int_of_float
         (amplitude * sin (2 * pi * frequency * (real i / real_of_int sample_rate)) * 32767)"
  by (simp add: quantized_def exact_scaled)

lemma exact_sample_count:
  "sample_count exact_arith duration sample_rate
     = nat (int_of_float (real_of_int sample_rate * duration))"
  by (simp add: sample_count_def exact_round)

lemma exact_count_finite:
  assumes "\<bar>sample_rate\<bar> \<le> 2 ^ 32" and "\<bar>duration\<bar> \<le> 2 ^ 20"
  shows "count_finite exact_arith duration sample_rate"
proof -
  have r: "\<bar>real_of_int sample_rate\<bar> \<le> 2 ^ 32"
    using assms(1) by (simp only: of_int_abs [symmetric] of_int_le_numeral_power_cancel_iff)
  then have "\<bar>real_of_int sample_rate\<bar> \<le> 2 ^ 53" by simp
  then have a: "\<bar>real_of_int sample_rate\<bar> \<le> fl_max exact_arith" by (rule exact_finite)
  have "\<bar>real_of_int sample_rate * duration\<bar> \<le> 2 ^ 32 * 2 ^ 20"
    unfolding abs_mult using r assms(2) by (intro mult_mono) simp_all
  then have "\<bar>real_of_int sample_rate * duration\<bar> \<le> 2 ^ 53" by simp
  then have b: "\<bar>real_of_int sample_rate * duration\<bar> \<le> fl_max exact_arith"
    by (rule exact_finite)
  from a b show ?thesis by (simp add: count_finite_def exact_round)
qed

lemma exact_sample_finite:
  assumes "sample_rate \<noteq> 0" and "\<bar>frequency\<bar> \<le> 2 ^ 20" and "\<bar>amplitude\<bar> \<le> 2 ^ 20"
    and "i \<le> 2 ^ 20"
  shows "sample_finite exact_arith frequency sample_rate amplitude i"
proof -
  let ?t = "real i / real_of_int sample_rate"
  let ?s = "sin (2 * pi * frequency * ?t)"
  have i: "real i \<le> 2 ^ 20"
    using assms(4) by (simp only: of_nat_le_numeral_power_cancel_iff)
  have "1 \<le> \<bar>sample_rate\<bar>" using assms(1) by simp
  then have "1 \<le> \<bar>real_of_int sample_rate\<bar>" by linarith
  then have "real i / \<bar>real_of_int sample_rate\<bar> \<le> real i / 1"
    by (intro divide_left_mono) simp_all
  then have "\<bar>?t\<bar> \<le> real i" by (simp add: abs_divide)
  with i have t: "\<bar>?t\<bar> \<le> 2 ^ 20" by linarith
  have p: "\<bar>2 * pi\<bar> \<le> 8" using pi_less_4 pi_ge_zero by simp
  have "\<bar>2 * pi * frequency\<bar> \<le> 8 * 2 ^ 20"
    unfolding abs_mult [of "2 * pi" frequency] using p assms(2) by (intro mult_mono) simp_all
  then have m: "\<bar>2 * pi * frequency\<bar> \<le> 2 ^ 23" by simp
  have "\<bar>2 * pi * frequency * ?t\<bar> \<le> 2 ^ 23 * 2 ^ 20"
    unfolding abs_mult [of "2 * pi * frequency" ?t] using m t by (intro mult_mono) simp_all
  then have a: "\<bar>2 * pi * frequency * ?t\<bar> \<le> 2 ^ 43" by simp
  have "\<bar>amplitude * ?s\<bar> \<le> 2 ^ 20 * 1"
    unfolding abs_mult [of amplitude ?s] using assms(3) by (intro mult_mono) simp_all
  then have y: "\<bar>amplitude * ?s\<bar> \<le> 2 ^ 20" by simp
  then have "\<bar>amplitude * ?s * 32767\<bar> \<le> 2 ^ 20 * 32767"
    by (simp add: abs_mult)
  then have x: "\<bar>amplitude * ?s * 32767\<bar> \<le> 2 ^ 35" by simp
  have "\<bar>?t\<bar> \<le> fl_max exact_arith" using t by (intro exact_finite) simp
  moreover have "\<bar>2 * pi\<bar> \<le> fl_max exact_arith" using p by (intro exact_finite) simp
  moreover have "\<bar>2 * pi * frequency\<bar> \<le> fl_max exact_arith"
    using m by (intro exact_finite) simp
  moreover have "\<bar>2 * pi * frequency * ?t\<bar> \<le> fl_max exact_arith"
    using a by (intro exact_finite) simp
  moreover have "\<bar>amplitude * ?s\<bar> \<le> fl_max exact_arith"
    using y by (intro exact_finite) simp
  moreover have "\<bar>amplitude * ?s * 32767\<bar> \<le> fl_max exact_arith"
    using x by (intro exact_finite) simp
  ultimately show ?thesis
    using assms(1)
    by (simp only: sample_finite_def exact_angle exact_scaled exact_round exact_sin exact_pi)
      simp
qed

lemma exact_sine_samples:
  assumes "sample_rate \<noteq> 0" and "\<bar>sample_rate\<bar> \<le> 2 ^ 32" and "\<bar>duration\<bar> \<le> 2 ^ 20"
    and "\<bar>frequency\<bar> \<le> 2 ^ 20" and "\<bar>amplitude\<bar> \<le> 2 ^ 20"
    and "int_of_float (real_of_int sample_rate * duration) \<le> 2 ^ 20"
  shows "sine_samples exact_arith (Finite frequency) (Finite duration) sample_rate
           (Finite amplitude)
         = Inr (map (quantized exact_arith frequency sample_rate amplitude)
                  [0..<nat (int_of_float (real_of_int sample_rate * duration))])"
proof -
  have c: "count_finite exact_arith duration sample_rate"
    by (rule exact_count_finite [OF assms(2,3)])
  have "sample_finite exact_arith frequency sample_rate amplitude i"
    if "i < sample_count exact_arith duration sample_rate" for i
  proof -
    from that have "int i < int_of_float (real_of_int sample_rate * duration)"
      by (simp add: exact_sample_count)
    with assms(6) have "int i \<le> 2 ^ 20" by linarith
    then have "i \<le> 2 ^ 20" by (simp only: of_nat_le_numeral_power_cancel_iff)
    then show ?thesis by (rule exact_sample_finite [OF assms(1,4,5)])
  qed
  with c show ?thesis
    by (simp add: sine_samples_Inr exact_sample_count)
qed

subsection \<open>Small concrete tones\<close>

lemma upt_two: "[0..<2] = [0, 1 :: nat]"
  by code_simp

lemma upt_four: "[0..<4] = [0, 1, 2, 3 :: nat]"
  by code_simp

lemma exact_index_zero: "quantized exact_arith frequency sample_rate amplitude 0 = 0"
  by (simp add: exact_quantized int_of_float_def)

lemma exact_quarter:
  "quantized exact_arith 1 4 amplitude (Suc 0) = int_of_float (amplitude * 32767)"
  by (simp add: exact_quantized)

lemma samples_quarter:
  assumes "\<bar>amplitude\<bar> \<le> 4"
  shows "sine_samples exact_arith (Finite 1) (Finite (1/2)) 4 (Finite amplitude)
           = Inr [0, int_of_float (amplitude * 32767)]"
proof -
  have n: "nat (int_of_float (real_of_int 4 * (1/2))) = 2"
    by (simp add: int_of_float_def)
  have "sine_samples exact_arith (Finite 1) (Finite (1/2)) 4 (Finite amplitude)
          = Inr (map (quantized exact_arith 1 4 amplitude)
                  [0..<nat (int_of_float (real_of_int 4 * (1/2)))])"
    using assms by (intro exact_sine_samples) (simp_all add: int_of_float_def)
  then show ?thesis
    by (simp only: n upt_two list.map exact_index_zero exact_quarter One_nat_def)
qed

lemma samples_four:
  "sine_samples exact_arith (Finite (- 1)) (Finite 1) 4 (Finite 1)
     = Inr [0, - 32767, 0, 32767]"
proof -
  have n: "int_of_float (real_of_int 4 * 1) = 4"
    by (simp add: int_of_float_def)
  have q1: "quantized exact_arith (- 1) 4 1 (Suc 0) = - 32767"
    by (simp add: exact_quantized int_of_float_def)
  have "sin (2 * pi * (2 / 4)) = 0" by simp
  then have q2: "quantized exact_arith (- 1) 4 1 2 = 0"
    by (simp add: exact_quantized int_of_float_def)
  have "2 * pi * (3 / 4) = 3 / 2 * pi" by simp
  then have "sin (2 * pi * (3 / 4)) = - 1" by (simp only: sin_3over2_pi)
  then have q3: "quantized exact_arith (- 1) 4 1 3 = 32767"
    by (simp add: exact_quantized int_of_float_def)
  have "sine_samples exact_arith (Finite (- 1)) (Finite 1) 4 (Finite 1)
          = Inr (map (quantized exact_arith (- 1) 4 1)
                  [0..<nat (int_of_float (real_of_int 4 * 1))])"
    by (intro exact_sine_samples) (simp_all add: int_of_float_def)
  then show ?thesis
    by (simp only: n nat_numeral upt_four list.map exact_index_zero q1 q2 q3 One_nat_def)
qed

subsection \<open>Packing, writing and reading back\<close>

lemma pack_h_ok:
  "- 32768 \<le> v \<Longrightarrow> v \<le> 32767 \<Longrightarrow>
   pack_h v = Inr [word_of_int v, word_of_int (v div 256)]"
  by (simp add: pack_h_def)

lemma length_frame_bytes: "length (frame_bytes samples) = 2 * length samples"
  by (induction samples) simp_all

text \<open>A call of \<^verbatim>\<open>writeframes\<close> with two bytes once the header is written.\<close>

lemma writeframes_written:
  assumes "headerwritten wav" and "datalength wav = datawritten wav"
    and "0 \<le> datawritten wav" and "datawritten wav + 2 \<le> 4294967259"
  shows "writeframes [a, b] wav
           = Inr (wav\<lparr>datalength := datawritten wav + 2, datawritten := datawritten wav + 2,
                       frames := frames wav @ [a, b]\<rparr>)"
  using assms
  by (simp add: writeframes_def ensure_header_written_def patchheader_def pack_L_ok_def Let_def)

lemma write_samples_written:
  assumes "headerwritten wav" and "datalength wav = datawritten wav"
    and "0 \<le> datawritten wav"
    and "datawritten wav + 2 * int (length samples) \<le> 4294967259"
    and "\<forall>s \<in> set samples. - 32768 \<le> s \<and> s \<le> 32767"
  shows "write_samples samples wav
           = Inr (wav\<lparr>datalength := datawritten wav + 2 * int (length samples),
                       datawritten := datawritten wav + 2 * int (length samples),
                       frames := frames wav @ frame_bytes samples\<rparr>)"
  using assms
proof (induction samples arbitrary: wav)
  case Nil
  then show ?case by simp
next
  case (Cons s rest)
  let ?bs = "[word_of_int s, word_of_int (s div 256)] :: byte list"
  let ?wav = "wav\<lparr>datalength := datawritten wav + 2, datawritten := datawritten wav + 2,
                   frames := frames wav @ ?bs\<rparr>"
  have p: "pack_h s = Inr ?bs" using Cons.prems(5) by (simp add: pack_h_ok)
  have w: "writeframes ?bs wav = Inr ?wav"
    using Cons.prems(1-4) by (intro writeframes_written) simp_all
  have "write_samples rest ?wav
          = Inr (?wav\<lparr>datalength := datawritten ?wav + 2 * int (length rest),
                        datawritten := datawritten ?wav + 2 * int (length rest),
                        frames := frames ?wav @ frame_bytes rest\<rparr>)"
    using Cons.prems by (intro Cons.IH) simp_all
  then show ?case by (simp add: p w)
qed

lemma close_written:
  "headerwritten wav \<Longrightarrow> datalength wav = datawritten wav \<Longrightarrow> close_wav wav = Inr wav"
  by (simp add: close_wav_def ensure_header_written_def)

text \<open>The first call of \<^verbatim>\<open>writeframes\<close>, which writes the header.\<close>

lemma writeframes_first:
  assumes "0 < sample_rate" and "sample_rate < 2 ^ 31"
  shows "writeframes [a, b]
           \<lparr>nchannels = 1, sampwidth = 2, framerate = sample_rate,
            headerwritten = False, datalength = 0, datawritten = 0, frames = []\<rparr>
         = Inr \<lparr>nchannels = 1, sampwidth = 2, framerate = sample_rate,
                headerwritten = True, datalength = 2, datawritten = 2, frames = [a, b]\<rparr>"
  using assms
  by (simp add: writeframes_def ensure_header_written_def write_header_def patchheader_def
      pack_L_ok_def pack_H_ok_def Let_def)

lemma write_wav_ok:
  assumes "0 < sample_rate" and "sample_rate < 2 ^ 31"
    and "\<forall>s \<in> set samples. - 32768 \<le> s \<and> s \<le> 32767"
    and "length samples \<le> 2147483629"
  shows "write_wav sample_rate samples
           = Inr \<lparr>nchannels = 1, sampwidth = 2, framerate = sample_rate,
                  headerwritten = True, datalength = 2 * int (length samples),
                  datawritten = 2 * int (length samples), frames = frame_bytes samples\<rparr>"
proof (cases samples)
  case Nil
  then show ?thesis
    using assms(1,2)
    by (simp add: write_wav_def close_wav_def ensure_header_written_def write_header_def
        pack_L_ok_def pack_H_ok_def Let_def)
next
  case (Cons s rest)
  let ?bs = "[word_of_int s, word_of_int (s div 256)] :: byte list"
  let ?w0 = "\<lparr>nchannels = 1, sampwidth = 2, framerate = sample_rate,
              headerwritten = False, datalength = 0, datawritten = 0, frames = []\<rparr>"
  let ?w1 = "\<lparr>nchannels = 1, sampwidth = 2, framerate = sample_rate,
              headerwritten = True, datalength = 2, datawritten = 2, frames = ?bs\<rparr>"
  let ?w2 = "\<lparr>nchannels = 1, sampwidth = 2, framerate = sample_rate,
              headerwritten = True, datalength = 2 * int (length samples),
              datawritten = 2 * int (length samples), frames = frame_bytes samples\<rparr>"
  have p: "pack_h s = Inr ?bs" using assms(3) Cons by (simp add: pack_h_ok)
  have w: "writeframes ?bs ?w0 = Inr ?w1"
    by (rule writeframes_first [OF assms(1,2)])
  have "write_samples rest ?w1
          = Inr (?w1\<lparr>datalength := datawritten ?w1 + 2 * int (length rest),
                       datawritten := datawritten ?w1 + 2 * int (length rest),
                       frames := frames ?w1 @ frame_bytes rest\<rparr>)"
    using assms(3,4) Cons by (intro write_samples_written) simp_all
  then have r: "write_samples rest ?w1 = Inr ?w2" using Cons by simp
  show ?thesis
    using assms(1) by (simp add: write_wav_def Cons p w r close_written)
qed

text \<open>
  A sample rate of \<open>2^31\<close> or more: the header's byte rate does not fit 32 bits, and the
  header is written by the first \<^verbatim>\<open>writeframes\<close>, or by \<^verbatim>\<open>close\<close> when the buffer is
  empty.
\<close>

lemma write_wav_large_rate:
  assumes "2 ^ 31 \<le> sample_rate"
    and "\<forall>s \<in> set samples. - 32768 \<le> s \<and> s \<le> 32767"
  shows "write_wav sample_rate samples = Inl StructError"
proof (cases samples)
  case Nil
  then show ?thesis
    using assms(1)
    by (simp add: write_wav_def close_wav_def ensure_header_written_def write_header_def
        pack_L_ok_def pack_H_ok_def Let_def)
next
  case (Cons s rest)
  then have p: "pack_h s = Inr [word_of_int s, word_of_int (s div 256)]"
    using assms(2) by (simp add: pack_h_ok)
  show ?thesis
    using assms(1)
    by (simp add: write_wav_def Cons p writeframes_def ensure_header_written_def
        write_header_def pack_L_ok_def pack_H_ok_def Let_def)
qed

lemma high_byte:
  assumes "- 128 \<le> q" and "q \<le> (127 :: int)"
  shows "q mod 256 = (if q < 0 then q + 256 else q)"
proof (cases "q < 0")
  case True
  have a: "(q + 256) mod 256 = q mod 256" by simp
  have "0 \<le> q + 256" and "q + 256 < 256" using assms True by simp_all
  then have b: "(q + 256) mod 256 = q + 256" by (rule mod_pos_pos_trivial)
  from a b have "q mod 256 = q + 256" by (simp only:)
  then show ?thesis using True by (simp only: if_True)
next
  case False
  then show ?thesis using assms by (simp add: mod_pos_pos_trivial)
qed

lemma unpack_pack:
  assumes "- 32768 \<le> v" and "v \<le> 32767"
  shows "unpack_h (word_of_int v) (word_of_int (v div 256)) = v"
proof -
  have lo: "uint (word_of_int v :: byte) = v mod 256"
    by (simp add: uint_word_of_int)
  have hi: "uint (word_of_int (v div 256) :: byte) = (v div 256) mod 256"
    by (simp add: uint_word_of_int)
  have q: "- 128 \<le> v div 256" "v div 256 \<le> 127"
    using assms by linarith+
  have h: "(v div 256) mod 256 = (if v div 256 < 0 then v div 256 + 256 else v div 256)"
    by (rule high_byte [OF q])
  have v: "v = 256 * (v div 256) + v mod 256" by simp
  have r: "0 \<le> v mod 256" "v mod 256 < 256" by simp_all
  show ?thesis
  proof (cases "v div 256 < 0")
    case True
    then have "uint (word_of_int v :: byte) + 256 * uint (word_of_int (v div 256) :: byte)
                 = v + 65536"
      using lo hi h v by simp
    moreover have "32768 \<le> v + 65536" using assms by simp
    ultimately show ?thesis by (simp add: unpack_h_def)
  next
    case False
    then have "uint (word_of_int v :: byte) + 256 * uint (word_of_int (v div 256) :: byte) = v"
      using lo hi h v by simp
    moreover have "\<not> 32768 \<le> v" using assms by simp
    ultimately show ?thesis by (simp add: unpack_h_def)
  qed
qed

lemma read_frames_packed:
  "(\<forall>s \<in> set samples. - 32768 \<le> s \<and> s \<le> 32767) \<Longrightarrow>
   read_frames (frame_bytes samples) = Some samples"
  by (induction samples) (simp_all add: unpack_pack)

lemma decode_written:
  assumes "\<forall>s \<in> set samples. - 32768 \<le> s \<and> s \<le> 32767"
  shows "decode \<lparr>nchannels = 1, sampwidth = 2, framerate = sample_rate,
                 headerwritten = True, datalength = 2 * int (length samples),
                 datawritten = 2 * int (length samples), frames = frame_bytes samples\<rparr>
           = Some samples"
  using read_frames_packed [OF assms] by (simp add: decode_def length_frame_bytes)

subsection \<open>When the sample loop returns\<close>

lemma abs_mult_bound:
  fixes x y :: real
  assumes "\<bar>x\<bar> \<le> a" and "\<bar>y\<bar> \<le> b"
  shows "\<bar>x * y\<bar> \<le> a * b"
proof -
  have "0 \<le> a" using assms(1) by linarith
  then show ?thesis
    unfolding abs_mult using assms by (intro mult_mono) simp_all
qed

lemma round_abs_le_pow:
  assumes "float_arith_ok F" and "k \<le> 53" and "\<bar>x\<bar> \<le> 2 ^ k"
  shows "\<bar>fl_round F x\<bar> \<le> 2 ^ k"
proof -
  have "(2 :: int) ^ k \<le> 2 ^ 53"
    using assms(2) by (intro power_increasing) simp_all
  moreover have "\<bar>x\<bar> \<le> real_of_int (2 ^ k)" using assms(3) by simp
  ultimately have "\<bar>fl_round F x\<bar> \<le> real_of_int (2 ^ k)"
    by (intro round_abs_le [OF assms(1)]) simp_all
  then show ?thesis by simp
qed

lemma finite_pow:
  assumes "float_arith_ok F" and "k \<le> 53" and "\<bar>x\<bar> \<le> 2 ^ k"
  shows "\<bar>x\<bar> \<le> fl_max F"
proof -
  have "(2 :: real) ^ k \<le> 2 ^ 53"
    using assms(2) by (intro power_increasing) simp_all
  moreover have "2 ^ 53 \<le> fl_max F" using assms(1) by (simp add: float_arith_ok_def)
  ultimately show ?thesis using assms(3) by linarith
qed

lemma sample_finite_bounded:
  assumes "float_arith_ok F" and "sample_rate \<noteq> 0"
    and "\<bar>frequency\<bar> \<le> 2 ^ 20" and "\<bar>amplitude\<bar> \<le> 2 ^ 20"
    and "\<bar>real i / real_of_int sample_rate\<bar> \<le> 2 ^ 20"
  shows "sample_finite F frequency sample_rate amplitude i"
proof -
  let ?t = "fl_round F (real i / real_of_int sample_rate)"
  let ?p = "fl_round F (2 * fl_pi F)"
  let ?m = "fl_round F (?p * frequency)"
  let ?a = "fl_round F (?m * ?t)"
  let ?y = "fl_round F (amplitude * fl_sin F ?a)"
  let ?x = "fl_round F (?y * 32767)"
  have t: "\<bar>?t\<bar> \<le> 2 ^ 20"
    using assms(5) by (intro round_abs_le_pow [OF assms(1)]) simp_all
  have "\<bar>2 * fl_pi F\<bar> \<le> 2 ^ 3"
    using assms(1) by (simp add: float_arith_ok_def)
  then have p: "\<bar>?p\<bar> \<le> 2 ^ 3"
    by (intro round_abs_le_pow [OF assms(1)]) simp_all
  have "\<bar>?p * frequency\<bar> \<le> 2 ^ 3 * 2 ^ 20"
    by (rule abs_mult_bound [OF p assms(3)])
  then have "\<bar>?p * frequency\<bar> \<le> 2 ^ 23" by simp
  then have m: "\<bar>?m\<bar> \<le> 2 ^ 23"
    by (intro round_abs_le_pow [OF assms(1)]) simp_all
  have "\<bar>?m * ?t\<bar> \<le> 2 ^ 23 * 2 ^ 20"
    by (rule abs_mult_bound [OF m t])
  then have "\<bar>?m * ?t\<bar> \<le> 2 ^ 43" by simp
  then have a: "\<bar>?a\<bar> \<le> 2 ^ 43"
    by (intro round_abs_le_pow [OF assms(1)]) simp_all
  have "\<bar>fl_sin F ?a\<bar> \<le> 1"
    using assms(1) by (simp add: float_arith_ok_def)
  then have "\<bar>amplitude * fl_sin F ?a\<bar> \<le> 2 ^ 20 * 1"
    by (rule abs_mult_bound [OF assms(4)])
  then have "\<bar>amplitude * fl_sin F ?a\<bar> \<le> 2 ^ 20" by simp
  then have y: "\<bar>?y\<bar> \<le> 2 ^ 20"
    by (intro round_abs_le_pow [OF assms(1)]) simp_all
  have "\<bar>?y * 32767\<bar> \<le> 2 ^ 20 * 2 ^ 15"
    by (intro abs_mult_bound [OF y]) simp
  then have "\<bar>?y * 32767\<bar> \<le> 2 ^ 35" by simp
  then have x: "\<bar>?x\<bar> \<le> 2 ^ 35"
    by (intro round_abs_le_pow [OF assms(1)]) simp_all
  have "\<bar>?t\<bar> \<le> fl_max F" by (rule finite_pow [OF assms(1) _ t]) simp
  moreover have "\<bar>?p\<bar> \<le> fl_max F" by (rule finite_pow [OF assms(1) _ p]) simp
  moreover have "\<bar>?m\<bar> \<le> fl_max F" by (rule finite_pow [OF assms(1) _ m]) simp
  moreover have "\<bar>?a\<bar> \<le> fl_max F" by (rule finite_pow [OF assms(1) _ a]) simp
  moreover have "\<bar>?y\<bar> \<le> fl_max F" by (rule finite_pow [OF assms(1) _ y]) simp
  moreover have "\<bar>?x\<bar> \<le> fl_max F" by (rule finite_pow [OF assms(1) _ x]) simp
  ultimately show ?thesis
    using assms(2) by (simp only: sample_finite_def angle_def scaled_def) simp
qed

lemma round_sample_rate:
  assumes "float_arith_ok F" and "\<bar>sample_rate\<bar> \<le> 2 ^ 32"
  shows "fl_round F (real_of_int sample_rate) = real_of_int sample_rate"
proof -
  have "\<bar>sample_rate\<bar> \<le> 2 ^ 53" using assms(2) by simp
  then show ?thesis by (rule round_int [OF assms(1)])
qed

lemma count_finite_bounded:
  assumes "float_arith_ok F" and "\<bar>sample_rate\<bar> \<le> 2 ^ 32" and "\<bar>duration\<bar> \<le> 2 ^ 20"
  shows "count_finite F duration sample_rate"
proof -
  have r: "\<bar>real_of_int sample_rate\<bar> \<le> 2 ^ 32"
    using assms(2) by (simp only: of_int_abs [symmetric] of_int_le_numeral_power_cancel_iff)
  have a: "\<bar>real_of_int sample_rate\<bar> \<le> fl_max F"
    by (rule finite_pow [OF assms(1) _ r]) simp
  have "\<bar>real_of_int sample_rate * duration\<bar> \<le> 2 ^ 32 * 2 ^ 20"
    by (rule abs_mult_bound [OF r assms(3)])
  then have "\<bar>real_of_int sample_rate * duration\<bar> \<le> 2 ^ 52" by simp
  then have b: "\<bar>fl_round F (real_of_int sample_rate * duration)\<bar> \<le> 2 ^ 52"
    by (intro round_abs_le_pow [OF assms(1)]) simp_all
  have "\<bar>fl_round F (real_of_int sample_rate * duration)\<bar> \<le> fl_max F"
    by (rule finite_pow [OF assms(1) _ b]) simp
  with a show ?thesis
    by (simp add: count_finite_def round_sample_rate [OF assms(1,2)])
qed

text \<open>
  The number of samples is at most the exact product rounded up, and at least the
  exact product rounded down.
\<close>

lemma sample_count_bounds:
  assumes "float_arith_ok F" and "\<bar>sample_rate\<bar> \<le> 2 ^ 53"
    and "\<bar>real_of_int sample_rate * duration\<bar> \<le> 2 ^ 53"
  shows "int_of_float (fl_round F (fl_round F (real_of_int sample_rate) * duration))
           \<le> \<lceil>real_of_int sample_rate * duration\<rceil>"
    and "\<lfloor>real_of_int sample_rate * duration\<rfloor>
           \<le> int_of_float (fl_round F (fl_round F (real_of_int sample_rate) * duration))"
proof -
  let ?x = "real_of_int sample_rate * duration"
  have rs: "fl_round F (real_of_int sample_rate) = real_of_int sample_rate"
    by (rule round_int [OF assms(1,2)])
  have lo: "- (2 ^ 53) \<le> ?x" and hi: "?x \<le> 2 ^ 53" using assms(3) by simp_all
  have "\<lceil>?x\<rceil> \<le> 2 ^ 53" using hi by (simp add: ceiling_le_iff)
  moreover have "- (2 ^ 53) \<le> \<lceil>?x\<rceil>"
  proof -
    have "real_of_int (- (2 ^ 53)) \<le> ?x" using lo by simp
    also have "\<dots> \<le> real_of_int \<lceil>?x\<rceil>" by simp
    finally show ?thesis by (simp only: of_int_le_iff)
  qed
  ultimately have c: "\<bar>\<lceil>?x\<rceil>\<bar> \<le> 2 ^ 53" by linarith
  have "- (2 ^ 53) \<le> \<lfloor>?x\<rfloor>" using lo by (simp add: le_floor_iff)
  moreover have "\<lfloor>?x\<rfloor> \<le> 2 ^ 53"
  proof -
    have "real_of_int \<lfloor>?x\<rfloor> \<le> ?x" by simp
    also have "\<dots> \<le> real_of_int (2 ^ 53)" using hi by simp
    finally show ?thesis by (simp only: of_int_le_iff)
  qed
  ultimately have f: "\<bar>\<lfloor>?x\<rfloor>\<bar> \<le> 2 ^ 53" by linarith
  have "fl_round F ?x \<le> fl_round F (real_of_int \<lceil>?x\<rceil>)"
    by (intro round_mono [OF assms(1)]) simp
  then have "fl_round F ?x \<le> real_of_int \<lceil>?x\<rceil>"
    by (simp only: round_int [OF assms(1) c])
  then have "int_of_float (fl_round F ?x) \<le> int_of_float (real_of_int \<lceil>?x\<rceil>)"
    by (rule int_of_float_mono)
  then show "int_of_float (fl_round F (fl_round F (real_of_int sample_rate) * duration))
               \<le> \<lceil>?x\<rceil>"
    by (simp only: int_of_float_of_int rs)
  have "fl_round F (real_of_int \<lfloor>?x\<rfloor>) \<le> fl_round F ?x"
    by (intro round_mono [OF assms(1)]) simp
  then have "real_of_int \<lfloor>?x\<rfloor> \<le> fl_round F ?x"
    by (simp only: round_int [OF assms(1) f])
  then have "int_of_float (real_of_int \<lfloor>?x\<rfloor>) \<le> int_of_float (fl_round F ?x)"
    by (rule int_of_float_mono)
  then show "\<lfloor>?x\<rfloor>
               \<le> int_of_float (fl_round F (fl_round F (real_of_int sample_rate) * duration))"
    by (simp only: int_of_float_of_int rs)
qed

lemma sample_time_bounded:
  assumes "float_arith_ok F" and "0 < sample_rate" and "sample_rate \<le> 2 ^ 32"
    and "\<bar>duration\<bar> \<le> 2 ^ 20" and "i < sample_count F duration sample_rate"
  shows "\<bar>real i / real_of_int sample_rate\<bar> \<le> 2 ^ 20"
proof -
  let ?x = "real_of_int sample_rate * duration"
  have sr: "\<bar>sample_rate\<bar> \<le> 2 ^ 32" using assms(2,3) by simp
  have r: "\<bar>real_of_int sample_rate\<bar> \<le> 2 ^ 32"
    using sr by (simp only: of_int_abs [symmetric] of_int_le_numeral_power_cancel_iff)
  have "\<bar>?x\<bar> \<le> 2 ^ 32 * 2 ^ 20"
    by (rule abs_mult_bound [OF r assms(4)])
  then have x: "\<bar>?x\<bar> \<le> 2 ^ 53" by simp
  have sr': "\<bar>sample_rate\<bar> \<le> 2 ^ 53" using sr by simp
  have "int i < int_of_float (fl_round F (fl_round F (real_of_int sample_rate) * duration))"
    using assms(5) by (simp add: sample_count_def)
  also have "\<dots> \<le> \<lceil>?x\<rceil>"
    by (rule sample_count_bounds(1) [OF assms(1) sr' x])
  finally have "int i < \<lceil>?x\<rceil>" .
  then have "real i < ?x" by (simp add: less_ceiling_iff)
  then have "real i / real_of_int sample_rate < duration"
    using assms(2) by (simp add: divide_less_eq mult.commute)
  moreover have "0 \<le> real i / real_of_int sample_rate" using assms(2) by simp
  ultimately show ?thesis using assms(4) by linarith
qed

lemma sine_samples_returns:
  assumes "float_arith_ok F" and "0 < sample_rate" and "sample_rate \<le> 2 ^ 32"
    and "\<bar>frequency\<bar> \<le> 2 ^ 20" and "\<bar>duration\<bar> \<le> 2 ^ 20" and "\<bar>amplitude\<bar> \<le> 2 ^ 20"
  shows "sine_samples F (Finite frequency) (Finite duration) sample_rate (Finite amplitude)
           = Inr (map (quantized F frequency sample_rate amplitude)
                    [0..<sample_count F duration sample_rate])"
proof -
  have sr: "\<bar>sample_rate\<bar> \<le> 2 ^ 32" and nz: "sample_rate \<noteq> 0" using assms(2,3) by simp_all
  have c: "count_finite F duration sample_rate"
    by (rule count_finite_bounded [OF assms(1) sr assms(5)])
  have "sample_finite F frequency sample_rate amplitude i"
    if "i < sample_count F duration sample_rate" for i
    using sample_time_bounded [OF assms(1,2,3,5) that]
    by (rule sample_finite_bounded [OF assms(1) nz assms(4,6)])
  with c show ?thesis by (simp add: sine_samples_Inr)
qed

subsection \<open>A duration that is not finite\<close>

lemma float_of_sample_rate:
  assumes "float_arith_ok F" and "\<bar>sample_rate\<bar> \<le> 2 ^ 32"
  shows "float_of_int F sample_rate = Inr (Finite (real_of_int sample_rate))"
proof -
  have "\<bar>real_of_int sample_rate\<bar> \<le> 2 ^ 32"
    using assms(2) by (simp only: of_int_abs [symmetric] of_int_le_numeral_power_cancel_iff)
  then have "\<bar>real_of_int sample_rate\<bar> \<le> fl_max F"
    by (rule finite_pow [OF assms(1), rotated 1]) simp
  then show ?thesis
    by (simp add: float_of_int_def round_sample_rate [OF assms])
qed

lemma infinite_duration:
  assumes "float_arith_ok F" and "\<bar>sample_rate\<bar> \<le> 2 ^ 32" and "sample_rate \<noteq> 0"
  shows "sine_samples F frequency Infinite sample_rate amplitude = Inl OverflowError"
  using assms(3)
  by (simp add: sine_samples_def float_of_sample_rate [OF assms(1,2)] fmul.simps int_py_def)

lemma nan_duration:
  assumes "float_arith_ok F" and "\<bar>sample_rate\<bar> \<le> 2 ^ 32"
  shows "sine_samples F frequency NaN sample_rate amplitude = Inl ValueError"
  by (simp add: sine_samples_def float_of_sample_rate [OF assms(1,2)] fmul.simps int_py_def)

subsection \<open>Returned buffers\<close>

lemma samples_three_eighths:
  "sine_samples exact_arith (Finite 1) (Finite (3/8)) 4 (Finite (1/2)) = Inr [0]"
proof -
  have n: "nat (int_of_float (real_of_int 4 * (3/8))) = 1"
    by (simp add: int_of_float_def)
  have "sine_samples exact_arith (Finite 1) (Finite (3/8)) 4 (Finite (1/2))
          = Inr (map (quantized exact_arith 1 4 (1/2))
                  [0..<nat (int_of_float (real_of_int 4 * (3/8)))])"
    by (intro exact_sine_samples) (simp_all add: int_of_float_def)
  then have "sine_samples exact_arith (Finite 1) (Finite (3/8)) 4 (Finite (1/2))
          = Inr (map (quantized exact_arith 1 4 (1/2)) [0..<1])"
    by (simp only: n)
  then show ?thesis
    by (simp add: exact_index_zero)
qed

lemma samples_in_range:
  assumes "float_arith_ok F" and "\<bar>amplitude\<bar> \<le> 1"
    and "sine_samples F (Finite frequency) (Finite duration) sample_rate (Finite amplitude)
           = Inr samples"
    and "s \<in> set samples"
  shows "- 32767 \<le> s" and "s \<le> 32767"
proof -
  obtain i where "s = quantized F frequency sample_rate amplitude i"
    using sine_samples_elem [OF assms(3,4)] by blast
  then show "- 32767 \<le> s" and "s \<le> 32767"
    using quantized_range [OF assms(1,2), of frequency sample_rate i] by simp_all
qed

lemma valid_returns:
  assumes "float_arith_ok F" and "valid_tone_spec frequency duration sample_rate amplitude"
    and "sample_rate \<le> 2 ^ 32" and "frequency \<le> 2 ^ 20" and "duration \<le> 2 ^ 20"
  shows "\<exists>samples. sine_samples F (Finite frequency) (Finite duration) sample_rate
                      (Finite amplitude) = Inr samples"
proof -
  have "0 < sample_rate" and "\<bar>frequency\<bar> \<le> 2 ^ 20" and "\<bar>duration\<bar> \<le> 2 ^ 20"
    and "\<bar>amplitude\<bar> \<le> 2 ^ 20"
    using assms(2,4,5) by (simp_all add: valid_tone_spec_def)
  then show ?thesis
    using sine_samples_returns [OF assms(1) _ assms(3), of frequency duration amplitude]
    by blast
qed

subsection \<open>The whole call\<close>

lemma generate_ok:
  assumes "0 < sample_rate" and "sample_rate < 2 ^ 31"
    and "sine_samples F frequency duration sample_rate amplitude = Inr samples"
    and "\<forall>s \<in> set samples. - 32768 \<le> s \<and> s \<le> 32767"
    and "length samples \<le> 2147483629"
  shows "generate_sine_wave F frequency duration sample_rate amplitude
           = Inr \<lparr>nchannels = 1, sampwidth = 2, framerate = sample_rate,
                  headerwritten = True, datalength = 2 * int (length samples),
                  datawritten = 2 * int (length samples), frames = frame_bytes samples\<rparr>"
  using write_wav_ok [OF assms(1,2,4,5)] by (simp add: generate_sine_wave_def assms(3))

lemma samples_large_rate:
  "sine_samples exact_arith (Finite 1) (Finite (1 / 2 ^ 31)) (2 ^ 31) (Finite (1/2)) = Inr [0]"
proof -
  have n: "nat (int_of_float (real_of_int (2 ^ 31) * (1 / 2 ^ 31))) = 1"
    by (simp add: int_of_float_def)
  have "sine_samples exact_arith (Finite 1) (Finite (1 / 2 ^ 31)) (2 ^ 31) (Finite (1/2))
          = Inr (map (quantized exact_arith 1 (2 ^ 31) (1/2))
                  [0..<nat (int_of_float (real_of_int (2 ^ 31) * (1 / 2 ^ 31)))])"
    by (intro exact_sine_samples) (simp_all add: int_of_float_def)
  then have "sine_samples exact_arith (Finite 1) (Finite (1 / 2 ^ 31)) (2 ^ 31) (Finite (1/2))
          = Inr (map (quantized exact_arith 1 (2 ^ 31) (1/2)) [0..<1])"
    by (simp only: n)
  then show ?thesis
    by (simp add: exact_index_zero)
qed

subsection \<open>Frequency zero, negative frequencies, non-positive durations\<close>

lemma samples_empty:
  assumes "float_arith_ok F" and "\<bar>sample_rate\<bar> \<le> 2 ^ 32" and "\<bar>duration\<bar> \<le> 2 ^ 20"
    and "real_of_int sample_rate * duration \<le> 0"
  shows "sine_samples F (Finite frequency) (Finite duration) sample_rate (Finite amplitude)
           = Inr []"
proof -
  have c: "count_finite F duration sample_rate"
    by (rule count_finite_bounded [OF assms(1,2,3)])
  have "fl_round F (real_of_int sample_rate * duration) \<le> fl_round F 0"
    by (rule round_mono [OF assms(1,4)])
  then have "fl_round F (real_of_int sample_rate * duration) \<le> 0"
    by (simp only: round_zero [OF assms(1)])
  then have "int_of_float (fl_round F (real_of_int sample_rate * duration)) \<le> int_of_float 0"
    by (rule int_of_float_mono)
  then have "sample_count F duration sample_rate = 0"
    by (simp add: sample_count_def round_sample_rate [OF assms(1,2)] int_of_float_zero)
  with c show ?thesis by (simp add: sine_samples_Inr)
qed

lemma angle_zero_frequency:
  "float_arith_ok F \<Longrightarrow> angle F 0 sample_rate i = 0"
  by (simp add: angle_def round_zero)

lemma quantized_zero_frequency:
  "float_arith_ok F \<Longrightarrow> quantized F 0 sample_rate amplitude i = 0"
  by (simp add: quantized_def scaled_def angle_zero_frequency round_zero int_of_float_zero
      float_arith_ok_def)

lemma sample_finite_zero_frequency:
  assumes "float_arith_ok F" and "sample_rate \<noteq> 0"
    and "\<bar>real i / real_of_int sample_rate\<bar> \<le> 2 ^ 20"
  shows "sample_finite F 0 sample_rate amplitude i"
proof -
  have z: "\<bar>0 :: real\<bar> \<le> fl_max F" using assms(1) by (simp add: float_arith_ok_def)
  have s: "fl_sin F 0 = 0" using assms(1) by (simp add: float_arith_ok_def)
  have "\<bar>fl_round F (real i / real_of_int sample_rate)\<bar> \<le> 2 ^ 20"
    using assms(3) by (intro round_abs_le_pow [OF assms(1)]) simp_all
  then have t: "\<bar>fl_round F (real i / real_of_int sample_rate)\<bar> \<le> fl_max F"
    by (rule finite_pow [OF assms(1), rotated 1]) simp
  have "\<bar>2 * fl_pi F\<bar> \<le> 2 ^ 3"
    using assms(1) by (simp add: float_arith_ok_def)
  then have "\<bar>fl_round F (2 * fl_pi F)\<bar> \<le> 2 ^ 3"
    by (intro round_abs_le_pow [OF assms(1)]) simp_all
  then have p: "\<bar>fl_round F (2 * fl_pi F)\<bar> \<le> fl_max F"
    by (rule finite_pow [OF assms(1), rotated 1]) simp
  show ?thesis
    using assms(2) t p z
    by (simp add: sample_finite_def scaled_def angle_zero_frequency [OF assms(1)]
        round_zero [OF assms(1)] s)
qed

lemma samples_zero_frequency:
  assumes "float_arith_ok F" and "0 < sample_rate" and "sample_rate \<le> 2 ^ 32"
    and "\<bar>duration\<bar> \<le> 2 ^ 20"
  shows "sine_samples F (Finite 0) (Finite duration) sample_rate (Finite amplitude)
           = Inr (replicate (sample_count F duration sample_rate) 0)"
proof -
  have sr: "\<bar>sample_rate\<bar> \<le> 2 ^ 32" and nz: "sample_rate \<noteq> 0" using assms(2,3) by simp_all
  have c: "count_finite F duration sample_rate"
    by (rule count_finite_bounded [OF assms(1) sr assms(4)])
  have f: "sample_finite F 0 sample_rate amplitude i"
    if "i < sample_count F duration sample_rate" for i
    using sample_time_bounded [OF assms(1,2,3,4) that]
    by (rule sample_finite_zero_frequency [OF assms(1) nz])
  have "map (quantized F 0 sample_rate amplitude) [0..<n] = replicate n 0" for n
    by (induction n) (simp_all add: quantized_zero_frequency [OF assms(1)] replicate_append_same)
  with c f show ?thesis by (simp add: sine_samples_Inr)
qed

lemma angle_mirror:
  assumes "float_arith_ok F"
  shows "angle F (- frequency) sample_rate i = - angle F frequency sample_rate i"
  by (simp add: angle_def round_minus [OF assms])

lemma scaled_mirror:
  assumes "float_arith_ok F" and "sine_odd F"
  shows "scaled F (- frequency) sample_rate amplitude i
           = - scaled F frequency sample_rate amplitude i"
proof -
  have "fl_sin F (- angle F frequency sample_rate i) = - fl_sin F (angle F frequency sample_rate i)"
    using assms(2) by (simp add: sine_odd_def)
  then show ?thesis
    by (simp add: scaled_def angle_mirror [OF assms(1)] round_minus [OF assms(1)])
qed

lemma quantized_mirror:
  assumes "float_arith_ok F" and "sine_odd F"
  shows "quantized F (- frequency) sample_rate amplitude i
           = - quantized F frequency sample_rate amplitude i"
  by (simp add: quantized_def scaled_mirror [OF assms] int_of_float_minus)

lemma sample_finite_mirror:
  assumes "float_arith_ok F" and "sine_odd F"
  shows "sample_finite F (- frequency) sample_rate amplitude i
           = sample_finite F frequency sample_rate amplitude i"
proof -
  have "fl_sin F (- angle F frequency sample_rate i) = - fl_sin F (angle F frequency sample_rate i)"
    using assms(2) by (simp add: sine_odd_def)
  then show ?thesis
    by (simp add: sample_finite_def scaled_mirror [OF assms] angle_mirror [OF assms(1)]
        round_minus [OF assms(1)])
qed

lemma samples_mirror:
  assumes "float_arith_ok F" and "sine_odd F"
    and "sine_samples F (Finite frequency) (Finite duration) sample_rate (Finite amplitude)
           = Inr samples"
  shows "sine_samples F (Finite (- frequency)) (Finite duration) sample_rate (Finite amplitude)
           = Inr (map uminus samples)"
proof -
  have q: "quantized F (- frequency) sample_rate amplitude
             = (\<lambda>i. - quantized F frequency sample_rate amplitude i)"
    by (rule ext) (rule quantized_mirror [OF assms(1,2)])
  show ?thesis
    using assms(3)
    by (simp add: sine_samples_Inr sample_finite_mirror [OF assms(1,2)] q comp_def)
qed

lemma samples_zero_quarter:
  "sine_samples exact_arith (Finite 0) (Finite (1/2)) 4 (Finite 1) = Inr [0, 0]"
proof -
  have n: "nat (int_of_float (real_of_int 4 * (1/2))) = 2"
    by (simp add: int_of_float_def)
  have "sine_samples exact_arith (Finite 0) (Finite (1/2)) 4 (Finite 1)
          = Inr (map (quantized exact_arith 0 4 1)
                  [0..<nat (int_of_float (real_of_int 4 * (1/2)))])"
    by (intro exact_sine_samples) (simp_all add: int_of_float_def)
  then show ?thesis
    by (simp only: n upt_two list.map quantized_zero_frequency [OF exact_arith_ok])
qed

subsection \<open>Doubling the amplitude\<close>

lemma scaled_double:
  assumes "float_arith_ok F" and "doubling_exact F"
  shows "\<bar>int_of_float (scaled F frequency sample_rate (2 * amplitude) i)
           - 2 * int_of_float (scaled F frequency sample_rate amplitude i)\<bar> \<le> 1"
proof -
  define e :: real where "e = 1 / 2 ^ 1022"
  define z where "z = amplitude * fl_sin F (angle F frequency sample_rate i)"
  have e_pos: "0 < e" by (simp add: e_def)
  have e_small: "e * 262144 \<le> 1" by (simp add: e_def)
  have d1: "fl_round F (2 * x) = 2 * fl_round F x" if "e \<le> \<bar>x\<bar>" for x
    using assms(2) that by (simp add: doubling_exact_def e_def)
  have d2: "fl_round F e = e"
    using assms(2) by (simp add: doubling_exact_def e_def)
  have d3: "\<bar>fl_round F x\<bar> \<le> 2 * \<bar>x\<bar>" for x
    using assms(2) by (simp add: doubling_exact_def)
  have s1: "scaled F frequency sample_rate amplitude i = fl_round F (fl_round F z * 32767)"
    by (simp add: scaled_def z_def)
  have s2: "scaled F frequency sample_rate (2 * amplitude) i
              = fl_round F (fl_round F (2 * z) * 32767)"
    by (simp add: scaled_def z_def mult.assoc)
  show ?thesis
  proof (cases "e \<le> \<bar>z\<bar>")
    case True
    have y: "e \<le> \<bar>fl_round F z\<bar>"
    proof (cases "0 \<le> z")
      case True
      with \<open>e \<le> \<bar>z\<bar>\<close> have "e \<le> z" by simp
      then have "fl_round F e \<le> fl_round F z" by (rule round_mono [OF assms(1)])
      then show ?thesis using d2 by simp
    next
      case False
      with \<open>e \<le> \<bar>z\<bar>\<close> have "z \<le> - e" by simp
      then have "fl_round F z \<le> fl_round F (- e)" by (rule round_mono [OF assms(1)])
      then have "fl_round F z \<le> - e" by (simp add: round_minus [OF assms(1)] d2)
      then show ?thesis by simp
    qed
    have "\<bar>fl_round F z\<bar> * 1 \<le> \<bar>fl_round F z\<bar> * 32767"
      by (intro mult_left_mono) simp_all
    with y have w: "e \<le> \<bar>fl_round F z * 32767\<bar>" by (simp add: abs_mult)
    have "fl_round F (fl_round F (2 * z) * 32767) = fl_round F (2 * (fl_round F z * 32767))"
      by (simp add: d1 [OF True] mult.assoc)
    also have "\<dots> = 2 * fl_round F (fl_round F z * 32767)" by (rule d1 [OF w])
    finally show ?thesis
      unfolding s1 s2 using int_of_float_double [of "fl_round F (fl_round F z * 32767)"]
      by simp
  next
    case False
    then have z: "\<bar>z\<bar> < e" by simp
    have "\<bar>fl_round F (fl_round F z * 32767)\<bar> \<le> 2 * \<bar>fl_round F z * 32767\<bar>" by (rule d3)
    also have "\<dots> = 65534 * \<bar>fl_round F z\<bar>" by (simp add: abs_mult)
    also have "\<dots> \<le> 65534 * (2 * \<bar>z\<bar>)" using d3 [of z] by simp
    finally have "\<bar>fl_round F (fl_round F z * 32767)\<bar> < 1"
      using z e_small by linarith
    then have a: "int_of_float (fl_round F (fl_round F z * 32767)) = 0"
      by (rule int_of_float_small)
    have "\<bar>fl_round F (fl_round F (2 * z) * 32767)\<bar> \<le> 2 * \<bar>fl_round F (2 * z) * 32767\<bar>"
      by (rule d3)
    also have "\<dots> = 65534 * \<bar>fl_round F (2 * z)\<bar>" by (simp add: abs_mult)
    also have "\<dots> \<le> 65534 * (2 * \<bar>2 * z\<bar>)" using d3 [of "2 * z"] by simp
    finally have "\<bar>fl_round F (fl_round F (2 * z) * 32767)\<bar> < 1"
      using z e_small by (simp add: abs_mult)
    then have b: "int_of_float (fl_round F (fl_round F (2 * z) * 32767)) = 0"
      by (rule int_of_float_small)
    show ?thesis unfolding s1 s2 by (simp add: a b)
  qed
qed

subsection \<open>The sample next to the first peak of the 440 Hz tone\<close>

lemma cos_lower: "1 - x\<^sup>2 / 2 \<le> cos (x :: real)"
proof -
  have "cos x = 1 - 2 * (sin (x / 2))\<^sup>2"
    using cos_double_sin [of "x / 2"] by simp
  moreover have "(sin (x / 2))\<^sup>2 \<le> (x / 2)\<^sup>2"
    using abs_sin_x_le_abs_x [of "x / 2"] by (simp only: abs_le_square_iff)
  ultimately show ?thesis by (simp add: power2_eq_square)
qed

lemma product_error:
  fixes m t M T :: real
  assumes "\<bar>m - M\<bar> \<le> a" and "\<bar>t\<bar> \<le> b" and "\<bar>M\<bar> \<le> c" and "\<bar>t - T\<bar> \<le> d"
  shows "\<bar>m * t - M * T\<bar> \<le> a * b + c * d"
proof -
  have "m * t - M * T = (m - M) * t + M * (t - T)" by (simp add: algebra_simps)
  then have "\<bar>m * t - M * T\<bar> \<le> \<bar>(m - M) * t\<bar> + \<bar>M * (t - T)\<bar>" by simp
  moreover have "\<bar>(m - M) * t\<bar> \<le> a * b" by (rule abs_mult_bound [OF assms(1,2)])
  moreover have "\<bar>M * (t - T)\<bar> \<le> c * d" by (rule abs_mult_bound [OF assms(3,4)])
  ultimately show ?thesis by linarith
qed

text \<open>The relative error of one rounding, for a number between \<open>2^-20\<close> and a bound \<open>b\<close>.\<close>

lemma round_error:
  assumes "float_accurate F" and "1 / 2 ^ 20 \<le> x" and "x \<le> b"
  shows "\<bar>fl_round F x - x\<bar> \<le> b * (1 / 2 ^ 52)"
proof -
  have "1 / 2 ^ 20 \<le> \<bar>x\<bar>" using assms(2) by linarith
  then have "\<bar>fl_round F x - x\<bar> \<le> \<bar>x\<bar> / 2 ^ 52"
    using assms(1) by (simp add: float_accurate_def)
  moreover have "\<bar>x\<bar> / 2 ^ 52 \<le> b / 2 ^ 52"
    using assms(2,3) by (intro divide_right_mono) simp_all
  ultimately show ?thesis by simp
qed

lemma angle_near_peak:
  assumes "float_arith_ok F" and "float_accurate F"
  shows "\<bar>angle F 440 44100 25 - (pi / 2 - pi / 882)\<bar> \<le> 1 / 2 ^ 40"
proof -
  define u :: real where "u = 1 / 2 ^ 52"
  define p where "p = fl_round F (2 * fl_pi F)"
  define m where "m = fl_round F (p * 440)"
  define t where "t = fl_round F (real 25 / real_of_int 44100)"
  have u_pos: "0 < u" and u_small: "u \<le> 1 / 10 ^ 9" and u40: "4096 * u = 1 / 2 ^ 40"
    by (simp_all add: u_def)
  have re: "\<bar>fl_round F x - x\<bar> \<le> b * u" if "1 / 2 ^ 20 \<le> x" and "x \<le> b" for x b
    unfolding u_def using that by (rule round_error [OF assms(2)])
  have P: "\<bar>fl_pi F - pi\<bar> \<le> 4 * u"
    using assms(2) by (simp add: float_accurate_def u_def)
  have pi3: "2 \<le> pi" and pi4: "pi < 4" by (rule pi_ge_two, rule pi_less_4)
  have "1 / 2 ^ 20 \<le> 2 * fl_pi F" using P pi3 u_small by (simp add: abs_le_iff)
  moreover have "2 * fl_pi F \<le> 9" using P pi4 u_small by (simp add: abs_le_iff)
  ultimately have "\<bar>p - 2 * fl_pi F\<bar> \<le> 9 * u" unfolding p_def by (rule re)
  with P have p: "\<bar>p - 2 * pi\<bar> \<le> 17 * u" by linarith
  have "1 / 2 ^ 20 \<le> p * 440" using p pi3 u_small by (simp add: abs_le_iff)
  moreover have "p * 440 \<le> 3960" using p pi4 u_small by (simp add: abs_le_iff)
  ultimately have "\<bar>m - p * 440\<bar> \<le> 3960 * u" unfolding m_def by (rule re)
  with p have m: "\<bar>m - 880 * pi\<bar> \<le> 11440 * u" by linarith
  have "\<bar>t - real 25 / real_of_int 44100\<bar> \<le> 1 * u"
    unfolding t_def by (rule re) simp_all
  then have t: "\<bar>t - 25 / 44100\<bar> \<le> u" by simp
  then have tb: "\<bar>t\<bar> \<le> 1 / 1000" using u_small by (simp add: abs_le_iff)
  have M: "\<bar>880 * pi\<bar> \<le> 3520" using pi3 pi4 by simp
  have "\<bar>m * t - 880 * pi * (25 / 44100)\<bar> \<le> 11440 * u * (1 / 1000) + 3520 * u"
    by (rule product_error [OF m tb M t])
  moreover have "880 * pi * (25 / 44100) = pi / 2 - pi / 882" by simp
  ultimately have mt: "\<bar>m * t - (pi / 2 - pi / 882)\<bar> \<le> 3532 * u"
    using u_pos by simp
  have "1 / 2 ^ 20 \<le> m * t" using mt pi3 u_small by (simp add: abs_le_iff)
  moreover have "m * t \<le> 2" using mt pi4 u_small by (simp add: abs_le_iff)
  ultimately have "\<bar>fl_round F (m * t) - m * t\<bar> \<le> 2 * u" by (rule re)
  with mt have "\<bar>fl_round F (m * t) - (pi / 2 - pi / 882)\<bar> \<le> 4096 * u"
    using u_pos by linarith
  then show ?thesis
    by (simp only: u40 angle_def m_def p_def t_def)
qed

lemma scaled_near_peak:
  assumes "float_arith_ok F" and "float_accurate F"
  shows "16383 \<le> scaled F 440 44100 (1/2) 25" and "scaled F 440 44100 (1/2) 25 < 16384"
proof -
  define u :: real where "u = 1 / 2 ^ 52"
  define a where "a = angle F 440 44100 25"
  define s where "s = fl_sin F a"
  define y where "y = fl_round F (1/2 * s)"
  have u_pos: "0 < u" and u_small: "u \<le> 1 / 1000000000" by (simp_all add: u_def)
  have re: "\<bar>fl_round F x - x\<bar> \<le> b * u" if "1 / 2 ^ 20 \<le> x" and "x \<le> b" for x b
    unfolding u_def using that by (rule round_error [OF assms(2)])
  have small: "(1 :: real) / 2 ^ 20 \<le> 1 / 1000000" by simp
  have pi3: "2 \<le> pi" and pi4: "pi < 4" by (rule pi_ge_two, rule pi_less_4)
  have a: "\<bar>a - (pi / 2 - pi / 882)\<bar> \<le> 1 / 2 ^ 40"
    unfolding a_def by (rule angle_near_peak [OF assms])
  have "(1 :: real) / 2 ^ 40 \<le> 1 / 1000000000" by simp
  with a have a': "\<bar>a - (pi / 2 - pi / 882)\<bar> \<le> 1 / 1000000000" by linarith
  have "\<bar>a\<bar> \<le> 2" using a' pi3 pi4 by linarith
  then have "\<bar>s - sin a\<bar> \<le> 1 / 2 ^ 50"
    unfolding s_def using assms(2) by (simp add: float_accurate_def)
  moreover have "(1 :: real) / 2 ^ 50 \<le> 1 / 1000000000" by simp
  ultimately have s_err: "sin a - 1 / 1000000000 \<le> s" by linarith
  have "\<bar>pi / 2 - a\<bar> \<le> 6 / 1000" using a' pi3 pi4 by linarith
  then have "\<bar>pi / 2 - a\<bar> \<le> \<bar>6 / 1000 :: real\<bar>" by simp
  then have "(pi / 2 - a)\<^sup>2 \<le> (6 / 1000)\<^sup>2"
    by (simp only: abs_le_square_iff)
  then have "(pi / 2 - a)\<^sup>2 \<le> 36 / 1000000" by (simp add: power2_eq_square)
  moreover have "1 - (pi / 2 - a)\<^sup>2 / 2 \<le> cos (pi / 2 - a)" by (rule cos_lower)
  moreover have "sin a = cos (pi / 2 - a)" using sin_cos_eq [of a] by simp
  ultimately have "1 - 18 / 1000000 \<le> sin a" by linarith
  with s_err have s_low: "1 - 19 / 1000000 \<le> s" by linarith
  have "\<bar>s\<bar> \<le> 1" unfolding s_def using assms(1) by (simp add: float_arith_ok_def)
  then have s_up: "s \<le> 1" by linarith
  have "1 / 2 ^ 20 \<le> 1/2 * s" using s_low small by linarith
  moreover have "1/2 * s \<le> 1/2" using s_up by linarith
  ultimately have "\<bar>y - 1/2 * s\<bar> \<le> 1/2 * u" unfolding y_def by (rule re)
  then have y_low: "1/2 - 10 / 1000000 \<le> y" and y_up: "y \<le> 1/2 + u"
    using s_low s_up u_small u_pos by linarith+
  have sc: "scaled F 440 44100 (1/2) 25 = fl_round F (y * 32767)"
    by (simp add: scaled_def y_def s_def a_def)
  have w_low: "real_of_int 16383 \<le> y * 32767" using y_low by simp
  then have "fl_round F (real_of_int 16383) \<le> fl_round F (y * 32767)"
    by (rule round_mono [OF assms(1)])
  moreover have "fl_round F (real_of_int 16383) = real_of_int 16383"
    by (rule round_int [OF assms(1)]) simp
  ultimately show "16383 \<le> scaled F 440 44100 (1/2) 25" by (simp add: sc)
  have "1 / 2 ^ 20 \<le> y * 32767" using y_low small by linarith
  moreover have "y * 32767 \<le> 16384" using y_up u_small by linarith
  ultimately have "\<bar>fl_round F (y * 32767) - y * 32767\<bar> \<le> 16384 * u" by (rule re)
  then have "fl_round F (y * 32767) < 16384" using y_up u_small by linarith
  then show "scaled F 440 44100 (1/2) 25 < 16384" by (simp only: sc)
qed

lemma quantized_peak:
  assumes "float_arith_ok F" and "float_accurate F"
  shows "quantized F 440 44100 (1/2) 25 = 16383"
proof -
  let ?x = "scaled F 440 44100 (1/2) 25"
  have b: "16383 \<le> ?x" "?x < 16384" by (rule scaled_near_peak [OF assms])+
  then have "0 \<le> ?x" by linarith
  then have "int_of_float ?x = \<lfloor>?x\<rfloor>" by (rule int_of_float_nonneg)
  also have "\<dots> = 16383" using b by (simp only: floor_eq_iff) simp
  finally show ?thesis by (simp only: quantized_def)
qed

lemma quantized_index_zero:
  assumes "float_arith_ok F"
  shows "quantized F frequency sample_rate amplitude 0 = 0"
proof -
  have s: "fl_sin F 0 = 0" using assms by (simp add: float_arith_ok_def)
  show ?thesis
    by (simp add: quantized_def scaled_def angle_def round_zero [OF assms] s int_of_float_zero)
qed

section \<open>Claims\<close>

text \<open>
  C1 (amended). For every valid ToneSpec with a sample rate of at most \<open>2^53\<close> and a
  product sample\_rate * duration of at most \<open>2^53\<close>, the length of a returned buffer is
  the float product of line 13, that is the exact product rounded to a float, truncated
  to an integer. It lies between the exact product rounded down and the exact product
  rounded up; it is not the product rounded to the nearest integer. A buffer is
  returned when, moreover, the sample rate is at most \<open>2^32\<close> and frequency and duration
  are at most \<open>2^20\<close>.
\<close>

theorem C1_length:
  assumes "float_arith_ok F"
    and "valid_tone_spec frequency duration sample_rate amplitude"
    and "sample_rate \<le> 2 ^ 53" and "real_of_int sample_rate * duration \<le> 2 ^ 53"
  shows "(\<forall>samples.
            sine_samples F (Finite frequency) (Finite duration) sample_rate (Finite amplitude)
              = Inr samples \<longrightarrow>
            int (length samples)
              = int_of_float (fl_round F (real_of_int sample_rate * duration))
            \<and> \<lfloor>real_of_int sample_rate * duration\<rfloor> \<le> int (length samples)
            \<and> int (length samples) \<le> \<lceil>real_of_int sample_rate * duration\<rceil>)
         \<and> (sample_rate \<le> 2 ^ 32 \<and> frequency \<le> 2 ^ 20 \<and> duration \<le> 2 ^ 20 \<longrightarrow>
            (\<exists>samples.
               sine_samples F (Finite frequency) (Finite duration) sample_rate
                 (Finite amplitude) = Inr samples))"
proof -
  let ?x = "real_of_int sample_rate * duration"
  let ?n = "int_of_float (fl_round F (fl_round F (real_of_int sample_rate) * duration))"
  have sr: "\<bar>sample_rate\<bar> \<le> 2 ^ 53"
    using assms(2,3) by (simp add: valid_tone_spec_def)
  have rs: "fl_round F (real_of_int sample_rate) = real_of_int sample_rate"
    by (rule round_int [OF assms(1) sr])
  have pos: "0 \<le> ?x" using assms(2) by (simp add: valid_tone_spec_def)
  then have x: "\<bar>?x\<bar> \<le> 2 ^ 53" using assms(4) by simp
  have up: "?n \<le> \<lceil>?x\<rceil>" and low: "\<lfloor>?x\<rfloor> \<le> ?n"
    by (rule sample_count_bounds [OF assms(1) sr x])+
  have "0 \<le> \<lfloor>?x\<rfloor>" using pos by simp
  with low have nn: "0 \<le> ?n" by linarith
  have "int (length samples) = int_of_float (fl_round F ?x)
          \<and> \<lfloor>?x\<rfloor> \<le> int (length samples) \<and> int (length samples) \<le> \<lceil>?x\<rceil>"
    if "sine_samples F (Finite frequency) (Finite duration) sample_rate (Finite amplitude)
          = Inr samples" for samples
  proof -
    have "int (length samples) = ?n"
      using sine_samples_length [OF that] nn by (simp add: sample_count_def)
    then show ?thesis using up low by (simp add: rs)
  qed
  moreover have "\<exists>samples.
      sine_samples F (Finite frequency) (Finite duration) sample_rate (Finite amplitude)
        = Inr samples"
    if "sample_rate \<le> 2 ^ 32 \<and> frequency \<le> 2 ^ 20 \<and> duration \<le> 2 ^ 20"
    using that valid_returns [OF assms(1,2)] by blast
  ultimately show ?thesis by blast
qed

theorem C1_length_witness:
  "float_arith_ok exact_arith \<and> valid_tone_spec 1 (3/8) 4 (1/2)
   \<and> (4 :: int) \<le> 2 ^ 53 \<and> real_of_int 4 * (3/8) \<le> 2 ^ 53
   \<and> (4 :: int) \<le> 2 ^ 32 \<and> (1 :: real) \<le> 2 ^ 20 \<and> (3/8 :: real) \<le> 2 ^ 20
   \<and> sine_samples exact_arith (Finite 1) (Finite (3/8)) 4 (Finite (1/2)) = Inr [0]
   \<and> int (length [0 :: int]) = int_of_float (fl_round exact_arith (real_of_int 4 * (3/8)))
   \<and> \<lfloor>real_of_int 4 * (3/8 :: real)\<rfloor> \<le> int (length [0 :: int])
   \<and> int (length [0 :: int]) \<le> \<lceil>real_of_int 4 * (3/8 :: real)\<rceil>"
proof -
  have v: "valid_tone_spec 1 (3/8) 4 (1/2)" by (simp add: valid_tone_spec_def)
  have b: "(4 :: int) \<le> 2 ^ 53" and c: "real_of_int 4 * (3/8) \<le> 2 ^ 53" by simp_all
  show ?thesis
    using C1_length [OF exact_arith_ok v b c] exact_arith_ok v samples_three_eighths
    by simp
qed

text \<open>
  C1 as stated fails: with sample rate 1 and duration 3/4 the buffer is empty, while
  the product 3/4 rounds to 1. Every number of this call is a float, so that no
  operation rounds.
\<close>

theorem C1_counterexample:
  "valid_tone_spec 440 (3/4) 1 (1/2) \<and>
   sine_samples exact_arith (Finite 440) (Finite (3/4)) 1 (Finite (1/2)) = Inr [] \<and>
   int (length ([] :: int list)) \<noteq> round (real_of_int 1 * (3/4 :: real))"
proof -
  have n: "nat (int_of_float (real_of_int 1 * (3/4))) = 0"
    by (simp add: int_of_float_def)
  have "sine_samples exact_arith (Finite 440) (Finite (3/4)) 1 (Finite (1/2))
          = Inr (map (quantized exact_arith 440 1 (1/2))
                  [0..<nat (int_of_float (real_of_int 1 * (3/4)))])"
    by (intro exact_sine_samples) (simp_all add: int_of_float_def)
  then have "sine_samples exact_arith (Finite 440) (Finite (3/4)) 1 (Finite (1/2))
          = Inr (map (quantized exact_arith 440 1 (1/2)) [0..<0])"
    by (simp only: n)
  then show ?thesis
    by (simp add: valid_tone_spec_def round_def)
qed

text \<open>
  C2 (amended). For every valid ToneSpec and every index \<open>i\<close> of a returned buffer, the
  sample at \<open>i\<close> is the float value of \<^verbatim>\<open>amplitude * math.sin(2 * math.pi * frequency * t) * 32767\<close>
  with \<^verbatim>\<open>t = i / sample_rate\<close>, every operation rounded to a float, truncated toward zero as
  Python's \<^verbatim>\<open>int\<close> does. It is not rounded to the nearest integer, from which it
  differs by at most 1, and no clamping step exists; the value lies in [-32767, 32767]
  all the same.
\<close>

theorem C2_sample:
  assumes "float_arith_ok F"
    and "valid_tone_spec frequency duration sample_rate amplitude"
    and "sine_samples F (Finite frequency) (Finite duration) sample_rate (Finite amplitude)
           = Inr samples"
    and "i < length samples"
  shows "samples ! i
           = int_of_float
               (fl_round F
                  (fl_round F (amplitude * fl_sin F (angle F frequency sample_rate i)) * 32767))
         \<and> \<bar>samples ! i - round (scaled F frequency sample_rate amplitude i)\<bar> \<le> 1
         \<and> - 32767 \<le> samples ! i \<and> samples ! i \<le> 32767"
proof -
  have a: "\<bar>amplitude\<bar> \<le> 1"
    using assms(2) by (simp add: valid_tone_spec_def)
  have q: "samples ! i = quantized F frequency sample_rate amplitude i"
    by (rule sine_samples_nth [OF assms(3,4)])
  then have "samples ! i
           = int_of_float
               (fl_round F
                  (fl_round F (amplitude * fl_sin F (angle F frequency sample_rate i)) * 32767))"
    by (simp add: quantized_def scaled_def)
  moreover have "\<bar>samples ! i - round (scaled F frequency sample_rate amplitude i)\<bar> \<le> 1"
    unfolding q quantized_def by (rule int_of_float_round)
  moreover have "- 32767 \<le> samples ! i" and "samples ! i \<le> 32767"
    unfolding q by (rule quantized_range [OF assms(1) a])+
  ultimately show ?thesis by blast
qed

theorem C2_sample_witness:
  "float_arith_ok exact_arith \<and> valid_tone_spec 1 (1/2) 4 (1/4)
   \<and> sine_samples exact_arith (Finite 1) (Finite (1/2)) 4 (Finite (1/4)) = Inr [0, 8191]
   \<and> (1 :: nat) < length [0, 8191 :: int]
   \<and> [0, 8191] ! 1
       = int_of_float
           (fl_round exact_arith
              (fl_round exact_arith (1/4 * fl_sin exact_arith (angle exact_arith 1 4 1)) * 32767))
   \<and> \<bar>[0, 8191] ! 1 - round (scaled exact_arith 1 4 (1/4) 1)\<bar> \<le> 1
   \<and> - 32767 \<le> [0, 8191 :: int] ! 1 \<and> [0, 8191 :: int] ! 1 \<le> 32767"
proof -
  have v: "valid_tone_spec 1 (1/2) 4 (1/4)" by (simp add: valid_tone_spec_def)
  have s: "sine_samples exact_arith (Finite 1) (Finite (1/2)) 4 (Finite (1/4)) = Inr [0, 8191]"
    by (simp add: samples_quarter int_of_float_def)
  have l: "(1 :: nat) < length [0, 8191 :: int]" by simp
  show ?thesis
    using C2_sample [OF exact_arith_ok v s l] exact_arith_ok v s by simp
qed

text \<open>
  C2 as stated fails: with frequency 1, duration 1/2, sample rate 4 and amplitude 1/4
  the sample at index 1 is int(8191.75) = 8191, while the spec's rounded and clamped
  value is 8192.
\<close>

theorem C2_counterexample:
  "valid_tone_spec 1 (1/2) 4 (1/4) \<and>
   sine_samples exact_arith (Finite 1) (Finite (1/2)) 4 (Finite (1/4)) = Inr [0, 8191] \<and>
   spec_sample 1 4 (1/4) 1 = 8192 \<and>
   [0, 8191] ! 1 \<noteq> spec_sample 1 4 (1/4) 1"
  by (simp add: valid_tone_spec_def samples_quarter int_of_float_def spec_sample_def round_def)

text \<open>
  C3 (amended). The amplitude is not clamped: every sample of a returned buffer is
  computed from the amplitude as passed. When the caller passes an amplitude of
  magnitude at most 1, every sample lies in [-32767, 32767]. When the caller passes a
  float amplitude with amplitude * 32767 >= 32768, every sample at which the sine
  evaluates to 1 exceeds 32767, and \<^verbatim>\<open>struct.pack('<h', _)\<close> raises on it.
\<close>

theorem C3_amplitude_not_clamped:
  assumes "float_arith_ok F"
    and "sine_samples F (Finite frequency) (Finite duration) sample_rate (Finite amplitude)
           = Inr samples"
    and "i < length samples"
  shows "samples ! i
           = int_of_float
               (fl_round F
                  (fl_round F (amplitude * fl_sin F (angle F frequency sample_rate i)) * 32767))
         \<and> (\<bar>amplitude\<bar> \<le> 1 \<longrightarrow> - 32767 \<le> samples ! i \<and> samples ! i \<le> 32767)
         \<and> (fl_round F amplitude = amplitude \<and> 32768 \<le> amplitude * 32767
              \<and> fl_sin F (angle F frequency sample_rate i) = 1 \<longrightarrow>
            32767 < samples ! i \<and> pack_h (samples ! i) = Inl StructError)"
proof -
  let ?s = "fl_sin F (angle F frequency sample_rate i)"
  have q: "samples ! i = quantized F frequency sample_rate amplitude i"
    by (rule sine_samples_nth [OF assms(2,3)])
  then have e: "samples ! i
           = int_of_float (fl_round F (fl_round F (amplitude * ?s) * 32767))"
    by (simp add: quantized_def scaled_def)
  have "- 32767 \<le> samples ! i \<and> samples ! i \<le> 32767" if "\<bar>amplitude\<bar> \<le> 1"
    unfolding q using quantized_range [OF assms(1) that] by blast
  moreover have "32767 < samples ! i \<and> pack_h (samples ! i) = Inl StructError"
    if h: "fl_round F amplitude = amplitude \<and> 32768 \<le> amplitude * 32767 \<and> ?s = 1"
  proof -
    have "fl_round F (real_of_int 32768) \<le> fl_round F (amplitude * 32767)"
      using h by (intro round_mono [OF assms(1)]) simp
    moreover have "fl_round F (real_of_int 32768) = real_of_int 32768"
      by (rule round_int [OF assms(1)]) simp
    ultimately have "real_of_int 32768 \<le> fl_round F (amplitude * 32767)" by simp
    then have "int_of_float (real_of_int 32768)
                 \<le> int_of_float (fl_round F (amplitude * 32767))"
      by (rule int_of_float_mono)
    then have "32768 \<le> int_of_float (fl_round F (amplitude * 32767))"
      by (simp only: int_of_float_of_int)
    then have "32768 \<le> samples ! i" using h by (simp add: e)
    then show ?thesis by (simp add: pack_h_def)
  qed
  ultimately show ?thesis using e by blast
qed

theorem C3_amplitude_not_clamped_witness:
  "float_arith_ok exact_arith
   \<and> sine_samples exact_arith (Finite 1) (Finite (1/2)) 4 (Finite 2) = Inr [0, 65534]
   \<and> sine_samples exact_arith (Finite 1) (Finite (1/2)) 4 (Finite 1) = Inr [0, 32767]
   \<and> (1 :: nat) < length [0, 65534 :: int] \<and> (1 :: nat) < length [0, 32767 :: int]
   \<and> \<bar>1 :: real\<bar> \<le> 1
   \<and> fl_round exact_arith 2 = 2 \<and> (32768 :: real) \<le> 2 * 32767
   \<and> fl_sin exact_arith (angle exact_arith 1 4 1) = 1
   \<and> [0, 65534] ! 1
       = int_of_float
           (fl_round exact_arith
              (fl_round exact_arith (2 * fl_sin exact_arith (angle exact_arith 1 4 1)) * 32767))
   \<and> - 32767 \<le> [0, 32767 :: int] ! 1 \<and> [0, 32767 :: int] ! 1 \<le> 32767
   \<and> 32767 < [0, 65534 :: int] ! 1
   \<and> pack_h ([0, 65534] ! 1) = Inl StructError"
proof -
  have s2: "sine_samples exact_arith (Finite 1) (Finite (1/2)) 4 (Finite 2) = Inr [0, 65534]"
    by (simp add: samples_quarter int_of_float_def)
  have s1: "sine_samples exact_arith (Finite 1) (Finite (1/2)) 4 (Finite 1) = Inr [0, 32767]"
    by (simp add: samples_quarter int_of_float_def)
  have l2: "(1 :: nat) < length [0, 65534 :: int]"
    and l1: "(1 :: nat) < length [0, 32767 :: int]" by simp_all
  have a: "fl_sin exact_arith (angle exact_arith 1 4 1) = 1"
    by (simp add: exact_sin exact_angle)
  show ?thesis
    using C3_amplitude_not_clamped [OF exact_arith_ok s2 l2]
      C3_amplitude_not_clamped [OF exact_arith_ok s1 l1] exact_arith_ok s1 s2 a
    by (simp add: exact_round)
qed

text \<open>
  C3 as stated fails: a call passing amplitude 2 (frequency 1, duration 1/2, sample rate
  4) computes the sample 65534 at index 1, outside the signed 16-bit range, and the call
  ends in struct.error.
\<close>

theorem C3_counterexample:
  "sine_samples exact_arith (Finite 1) (Finite (1/2)) 4 (Finite 2) = Inr [0, 65534] \<and>
   \<not> ([0, 65534] ! 1 \<le> (32767 :: int)) \<and>
   pack_h 65534 = Inl StructError \<and>
   generate_sine_wave exact_arith (Finite 1) (Finite (1/2)) 4 (Finite 2) = Inl StructError"
proof -
  have s: "sine_samples exact_arith (Finite 1) (Finite (1/2)) 4 (Finite 2) = Inr [0, 65534]"
    by (simp add: samples_quarter int_of_float_def)
  have p0: "pack_h 0 = Inr [0, 0]" by (simp add: pack_h_def)
  have p: "pack_h 65534 = Inl StructError" by (simp add: pack_h_def)
  have w: "writeframes [0, 0]
             \<lparr>nchannels = 1, sampwidth = 2, framerate = 4,
              headerwritten = False, datalength = 0, datawritten = 0, frames = []\<rparr>
           = Inr \<lparr>nchannels = 1, sampwidth = 2, framerate = 4,
                  headerwritten = True, datalength = 2, datawritten = 2, frames = [0, 0]\<rparr>"
    by (rule writeframes_first) simp_all
  have "generate_sine_wave exact_arith (Finite 1) (Finite (1/2)) 4 (Finite 2) = Inl StructError"
    by (simp add: generate_sine_wave_def s write_wav_def p0 p w)
  with s p show ?thesis by simp
qed

text \<open>
  C4. For every valid ToneSpec, every sample of a returned buffer lies in
  [-32768, 32767]. A buffer is returned when the sample rate is at most \<open>2^32\<close> and
  frequency and duration are at most \<open>2^20\<close>.
\<close>

theorem C4_sample_range:
  assumes "float_arith_ok F"
    and "valid_tone_spec frequency duration sample_rate amplitude"
  shows "(\<forall>samples.
            sine_samples F (Finite frequency) (Finite duration) sample_rate (Finite amplitude)
              = Inr samples \<longrightarrow>
            (\<forall>s \<in> set samples. - 32768 \<le> s \<and> s \<le> 32767))
         \<and> (sample_rate \<le> 2 ^ 32 \<and> frequency \<le> 2 ^ 20 \<and> duration \<le> 2 ^ 20 \<longrightarrow>
            (\<exists>samples.
               sine_samples F (Finite frequency) (Finite duration) sample_rate
                 (Finite amplitude) = Inr samples))"
proof -
  have a: "\<bar>amplitude\<bar> \<le> 1"
    using assms(2) by (simp add: valid_tone_spec_def)
  have "- 32768 \<le> s \<and> s \<le> 32767"
    if "sine_samples F (Finite frequency) (Finite duration) sample_rate (Finite amplitude)
          = Inr samples" and "s \<in> set samples" for samples s
    using samples_in_range [OF assms(1) a that] by simp
  moreover have "\<exists>samples.
      sine_samples F (Finite frequency) (Finite duration) sample_rate (Finite amplitude)
        = Inr samples"
    if "sample_rate \<le> 2 ^ 32 \<and> frequency \<le> 2 ^ 20 \<and> duration \<le> 2 ^ 20"
    using that valid_returns [OF assms(1,2)] by blast
  ultimately show ?thesis by blast
qed

theorem C4_sample_range_witness:
  "float_arith_ok exact_arith \<and> valid_tone_spec 1 (1/2) 4 1
   \<and> (4 :: int) \<le> 2 ^ 32 \<and> (1 :: real) \<le> 2 ^ 20 \<and> (1/2 :: real) \<le> 2 ^ 20
   \<and> sine_samples exact_arith (Finite 1) (Finite (1/2)) 4 (Finite 1) = Inr [0, 32767]
   \<and> (0 :: int) \<in> set [0, 32767] \<and> (32767 :: int) \<in> set [0, 32767]
   \<and> - 32768 \<le> (0 :: int) \<and> (0 :: int) \<le> 32767
   \<and> - 32768 \<le> (32767 :: int) \<and> (32767 :: int) \<le> 32767"
proof -
  have v: "valid_tone_spec 1 (1/2) 4 1" by (simp add: valid_tone_spec_def)
  have s: "sine_samples exact_arith (Finite 1) (Finite (1/2)) 4 (Finite 1) = Inr [0, 32767]"
    by (simp add: samples_quarter int_of_float_def)
  show ?thesis
    using C4_sample_range [OF exact_arith_ok v] exact_arith_ok v s by simp
qed

text \<open>
  C5 (amended). For every valid ToneSpec with a sample rate below \<open>2^31\<close>: when the
  synthesis loop returns a buffer of at most 2147483629 samples, the call returns, and
  decoding the file it leaves yields exactly that buffer, sample for sample. The two
  bounds are those of the 32-bit fields of the header that the \<^verbatim>\<open>wave\<close> module writes: the
  byte rate 2 * sample\_rate and the chunk size 36 + 2 * length. All this happens when
  frequency and duration are at most \<open>2^20\<close> and sample\_rate * duration is at most
  2147483629.
\<close>

theorem C5_round_trip:
  assumes "float_arith_ok F"
    and "valid_tone_spec frequency duration sample_rate amplitude"
    and "sample_rate < 2 ^ 31"
  shows "(\<forall>samples.
            sine_samples F (Finite frequency) (Finite duration) sample_rate (Finite amplitude)
              = Inr samples \<and> length samples \<le> 2147483629 \<longrightarrow>
            (\<exists>wav. generate_sine_wave F (Finite frequency) (Finite duration) sample_rate
                      (Finite amplitude) = Inr wav
                   \<and> decode wav = Some samples))
         \<and> (frequency \<le> 2 ^ 20 \<and> duration \<le> 2 ^ 20
              \<and> real_of_int sample_rate * duration \<le> 2147483629 \<longrightarrow>
            (\<exists>samples wav.
               sine_samples F (Finite frequency) (Finite duration) sample_rate
                 (Finite amplitude) = Inr samples
               \<and> generate_sine_wave F (Finite frequency) (Finite duration) sample_rate
                   (Finite amplitude) = Inr wav
               \<and> decode wav = Some samples))"
proof -
  let ?x = "real_of_int sample_rate * duration"
  have a: "\<bar>amplitude\<bar> \<le> 1" and sr: "0 < sample_rate" and d: "0 < duration"
    using assms(2) by (simp_all add: valid_tone_spec_def)
  have sr32: "sample_rate \<le> 2 ^ 32" and sr53: "\<bar>sample_rate\<bar> \<le> 2 ^ 53"
    using assms(3) sr by simp_all
  have first: "\<exists>wav. generate_sine_wave F (Finite frequency) (Finite duration) sample_rate
                        (Finite amplitude) = Inr wav
                     \<and> decode wav = Some samples"
    if s: "sine_samples F (Finite frequency) (Finite duration) sample_rate (Finite amplitude)
             = Inr samples"
      and l: "length samples \<le> 2147483629" for samples
  proof -
    have r: "\<forall>s \<in> set samples. - 32768 \<le> s \<and> s \<le> 32767"
      using samples_in_range [OF assms(1) a s] by fastforce
    show ?thesis
      using generate_ok [OF sr assms(3) s r l] decode_written [OF r, of sample_rate]
      by simp
  qed
  have second: "\<exists>samples wav.
      sine_samples F (Finite frequency) (Finite duration) sample_rate (Finite amplitude)
        = Inr samples
      \<and> generate_sine_wave F (Finite frequency) (Finite duration) sample_rate
          (Finite amplitude) = Inr wav
      \<and> decode wav = Some samples"
    if h: "frequency \<le> 2 ^ 20 \<and> duration \<le> 2 ^ 20 \<and> ?x \<le> 2147483629"
  proof -
    obtain samples where
      s: "sine_samples F (Finite frequency) (Finite duration) sample_rate (Finite amplitude)
            = Inr samples"
      using valid_returns [OF assms(1,2) sr32] h by blast
    have "0 \<le> ?x" using sr d by simp
    then have x: "\<bar>?x\<bar> \<le> 2 ^ 53" using h by simp
    have "\<lfloor>?x\<rfloor> \<le> int_of_float
            (fl_round F (fl_round F (real_of_int sample_rate) * duration))"
      by (rule sample_count_bounds(2) [OF assms(1) sr53 x])
    moreover have "0 \<le> \<lfloor>?x\<rfloor>" using \<open>0 \<le> ?x\<close> by simp
    ultimately have "0 \<le> int_of_float
            (fl_round F (fl_round F (real_of_int sample_rate) * duration))"
      by (rule order_trans [rotated])
    then have "int (length samples) \<le> int_of_float
            (fl_round F (fl_round F (real_of_int sample_rate) * duration))"
      using sine_samples_length [OF s] by (simp add: sample_count_def)
    also have "\<dots> \<le> \<lceil>?x\<rceil>"
      by (rule sample_count_bounds(1) [OF assms(1) sr53 x])
    also have "\<dots> \<le> 2147483629" using h by (simp add: ceiling_le_iff)
    finally have "length samples \<le> 2147483629" by simp
    with first [OF s] s show ?thesis by blast
  qed
  from first second show ?thesis by blast
qed

theorem C5_round_trip_witness:
  "float_arith_ok exact_arith \<and> valid_tone_spec 1 (1/2) 4 1 \<and> (4 :: int) < 2 ^ 31
   \<and> (1 :: real) \<le> 2 ^ 20 \<and> (1/2 :: real) \<le> 2 ^ 20
   \<and> real_of_int 4 * (1/2) \<le> 2147483629
   \<and> sine_samples exact_arith (Finite 1) (Finite (1/2)) 4 (Finite 1) = Inr [0, 32767]
   \<and> length [0, 32767 :: int] \<le> 2147483629
   \<and> (\<exists>wav. generate_sine_wave exact_arith (Finite 1) (Finite (1/2)) 4 (Finite 1) = Inr wav
          \<and> decode wav = Some [0, 32767])"
proof -
  have v: "valid_tone_spec 1 (1/2) 4 1" by (simp add: valid_tone_spec_def)
  have b: "(4 :: int) < 2 ^ 31" by simp
  have s: "sine_samples exact_arith (Finite 1) (Finite (1/2)) 4 (Finite 1) = Inr [0, 32767]"
    by (simp add: samples_quarter int_of_float_def)
  show ?thesis
    using C5_round_trip [OF exact_arith_ok v b] exact_arith_ok v s by simp
qed

text \<open>
  C5 as stated fails: frequency 1, duration \<open>2^-31\<close>, sample rate \<open>2^31\<close> and amplitude
  1/2 form a valid ToneSpec whose buffer is the single sample 0, and the call ends in
  struct.error, the byte rate \<open>2^32\<close> not fitting its header field. No file is left
  to decode.
\<close>

theorem C5_counterexample:
  "valid_tone_spec 1 (1 / 2 ^ 31) (2 ^ 31) (1/2) \<and>
   sine_samples exact_arith (Finite 1) (Finite (1 / 2 ^ 31)) (2 ^ 31) (Finite (1/2)) = Inr [0] \<and>
   generate_sine_wave exact_arith (Finite 1) (Finite (1 / 2 ^ 31)) (2 ^ 31) (Finite (1/2))
     = Inl StructError"
proof -
  have v: "valid_tone_spec 1 (1 / 2 ^ 31) (2 ^ 31) (1/2)"
    by (simp add: valid_tone_spec_def)
  have s: "sine_samples exact_arith (Finite 1) (Finite (1 / 2 ^ 31)) (2 ^ 31) (Finite (1/2))
             = Inr [0]"
    by (rule samples_large_rate)
  have w: "write_wav (2 ^ 31) [0] = Inl StructError"
    by (rule write_wav_large_rate) simp_all
  have "generate_sine_wave exact_arith (Finite 1) (Finite (1 / 2 ^ 31)) (2 ^ 31) (Finite (1/2))
          = Inl StructError"
    by (simp only: generate_sine_wave_def s sum.case w)
  with v s show ?thesis by (simp only: simp_thms)
qed

text \<open>
  C7 (amended). For every call with a positive sample rate below \<open>2^31\<close> and a duration
  of magnitude at most \<open>2^20\<close>: a non-positive duration raises no error and yields a
  zero-length buffer and a file with zero data bytes whose header declares one channel,
  two bytes per sample, the given sample rate and a data length of 0. Frequency 0 yields
  a buffer of zeros, which does not oscillate, and raises no error when the buffer has
  at most 2147483629 samples. A negative frequency is given to the sine as any other:
  its buffer is the sample-wise negation of the buffer of the opposite frequency, and
  oscillates as that one does.
\<close>

theorem C7_degenerate_inputs:
  assumes "float_arith_ok F" and "sine_odd F"
    and "0 < sample_rate" and "sample_rate < 2 ^ 31" and "\<bar>duration\<bar> \<le> 2 ^ 20"
  shows "(duration \<le> 0 \<longrightarrow>
            sine_samples F (Finite frequency) (Finite duration) sample_rate (Finite amplitude)
              = Inr []
            \<and> generate_sine_wave F (Finite frequency) (Finite duration) sample_rate
                (Finite amplitude)
              = Inr \<lparr>nchannels = 1, sampwidth = 2, framerate = sample_rate,
                     headerwritten = True, datalength = 0, datawritten = 0, frames = []\<rparr>)
         \<and> (\<exists>samples.
               sine_samples F (Finite 0) (Finite duration) sample_rate (Finite amplitude)
                 = Inr samples
               \<and> (\<forall>s \<in> set samples. s = 0) \<and> non_oscillating samples
               \<and> (length samples \<le> 2147483629 \<longrightarrow>
                  (\<exists>wav. generate_sine_wave F (Finite 0) (Finite duration) sample_rate
                            (Finite amplitude) = Inr wav)))
         \<and> (\<forall>samples.
               sine_samples F (Finite frequency) (Finite duration) sample_rate
                 (Finite amplitude) = Inr samples \<longrightarrow>
               sine_samples F (Finite (- frequency)) (Finite duration) sample_rate
                 (Finite amplitude) = Inr (map uminus samples))"
proof -
  have sr: "\<bar>sample_rate\<bar> \<le> 2 ^ 32" and sr32: "sample_rate \<le> 2 ^ 32"
    using assms(3,4) by simp_all
  have first: "sine_samples F (Finite frequency) (Finite duration) sample_rate (Finite amplitude)
              = Inr []
            \<and> generate_sine_wave F (Finite frequency) (Finite duration) sample_rate
                (Finite amplitude)
              = Inr \<lparr>nchannels = 1, sampwidth = 2, framerate = sample_rate,
                     headerwritten = True, datalength = 0, datawritten = 0, frames = []\<rparr>"
    if "duration \<le> 0"
  proof -
    have "real_of_int sample_rate * duration \<le> 0"
      using assms(3) that by (simp add: mult_le_0_iff)
    then have s: "sine_samples F (Finite frequency) (Finite duration) sample_rate
                    (Finite amplitude) = Inr []"
      by (rule samples_empty [OF assms(1) sr assms(5)])
    show ?thesis
      using generate_ok [OF assms(3,4) s] s by simp
  qed
  let ?zeros = "replicate (sample_count F duration sample_rate) (0 :: int)"
  have z: "sine_samples F (Finite 0) (Finite duration) sample_rate (Finite amplitude)
             = Inr ?zeros"
    by (rule samples_zero_frequency [OF assms(1,3) sr32 assms(5)])
  have zr: "\<forall>s \<in> set ?zeros. - 32768 \<le> s \<and> s \<le> 32767" by simp
  have "\<exists>wav. generate_sine_wave F (Finite 0) (Finite duration) sample_rate
                 (Finite amplitude) = Inr wav"
    if "length ?zeros \<le> 2147483629"
    using generate_ok [OF assms(3,4) z zr that] by blast
  moreover have "\<forall>s \<in> set ?zeros. s = 0" by simp
  moreover have "non_oscillating ?zeros"
    by (simp add: non_oscillating_def list_all_iff)
  ultimately have second: "\<exists>samples.
               sine_samples F (Finite 0) (Finite duration) sample_rate (Finite amplitude)
                 = Inr samples
               \<and> (\<forall>s \<in> set samples. s = 0) \<and> non_oscillating samples
               \<and> (length samples \<le> 2147483629 \<longrightarrow>
                  (\<exists>wav. generate_sine_wave F (Finite 0) (Finite duration) sample_rate
                            (Finite amplitude) = Inr wav))"
    using z by blast
  have third: "sine_samples F (Finite (- frequency)) (Finite duration) sample_rate
                 (Finite amplitude) = Inr (map uminus samples)"
    if "sine_samples F (Finite frequency) (Finite duration) sample_rate
                 (Finite amplitude) = Inr samples" for samples
    using that by (rule samples_mirror [OF assms(1,2)])
  from first second third show ?thesis by blast
qed

theorem C7_degenerate_inputs_witness:
  "float_arith_ok exact_arith \<and> sine_odd exact_arith
   \<and> (0 :: int) < 4 \<and> (4 :: int) < 2 ^ 31 \<and> \<bar>0 :: real\<bar> \<le> 2 ^ 20 \<and> \<bar>1/2 :: real\<bar> \<le> 2 ^ 20
   \<and> (0 :: real) \<le> 0
   \<and> sine_samples exact_arith (Finite 1) (Finite 0) 4 (Finite 1) = Inr []
   \<and> generate_sine_wave exact_arith (Finite 1) (Finite 0) 4 (Finite 1)
       = Inr \<lparr>nchannels = 1, sampwidth = 2, framerate = 4,
              headerwritten = True, datalength = 0, datawritten = 0, frames = []\<rparr>
   \<and> sine_samples exact_arith (Finite 0) (Finite (1/2)) 4 (Finite 1) = Inr [0, 0]
   \<and> non_oscillating [0, 0] \<and> length [0, 0 :: int] \<le> 2147483629
   \<and> (\<exists>wav. generate_sine_wave exact_arith (Finite 0) (Finite (1/2)) 4 (Finite 1) = Inr wav)
   \<and> sine_samples exact_arith (Finite 1) (Finite (1/2)) 4 (Finite 1) = Inr [0, 32767]
   \<and> sine_samples exact_arith (Finite (- 1)) (Finite (1/2)) 4 (Finite 1)
       = Inr (map uminus [0, 32767])"
proof -
  have p: "(0 :: int) < 4" and q: "(4 :: int) < 2 ^ 31"
    and d0: "\<bar>0 :: real\<bar> \<le> 2 ^ 20" and d1: "\<bar>1/2 :: real\<bar> \<le> 2 ^ 20" by simp_all
  have s: "sine_samples exact_arith (Finite 1) (Finite (1/2)) 4 (Finite 1) = Inr [0, 32767]"
    by (simp add: samples_quarter int_of_float_def)
  show ?thesis
    using C7_degenerate_inputs [OF exact_arith_ok exact_sine_odd p q d0, of 1 1]
      C7_degenerate_inputs [OF exact_arith_ok exact_sine_odd p q d1, of 1 1]
      exact_arith_ok exact_sine_odd s samples_zero_quarter
    by simp
qed

text \<open>
  C7 as stated fails for a negative frequency: frequency -1, duration 1, sample rate 4
  and amplitude 1 give the buffer [0, -32767, 0, 32767], which takes both signs.
\<close>

theorem C7_counterexample:
  "sine_samples exact_arith (Finite (- 1)) (Finite 1) 4 (Finite 1)
     = Inr [0, - 32767, 0, 32767] \<and>
   \<not> non_oscillating [0, - 32767, 0, 32767]"
  by (simp add: samples_four non_oscillating_def)

text \<open>
  C8. Synthesis with frequency 440, duration 1.0, sample rate 44100 and amplitude 0.5
  returns exactly 44100 samples; the sample at index 0 is 0 and the sample at index 25,
  next to the quarter-period peak, is 16383. This holds in every float arithmetic of
  the stated accuracy: the angle at index 25 is within \<open>2^-40\<close> of pi/2 - pi/882, and the
  value given to \<^verbatim>\<open>int\<close> lies in [16383, 16384).
\<close>

theorem C8_scenario:
  assumes "float_arith_ok F" and "float_accurate F"
  shows "\<exists>samples. sine_samples F (Finite 440) (Finite 1) 44100 (Finite (1/2)) = Inr samples
           \<and> length samples = 44100 \<and> samples ! 0 = 0 \<and> samples ! 25 = 16383"
proof -
  let ?samples = "map (quantized F 440 44100 (1/2)) [0..<sample_count F 1 44100]"
  have "fl_round F (real_of_int 44100) = real_of_int 44100"
    by (rule round_int [OF assms(1)]) simp
  then have n: "sample_count F 1 44100 = 44100"
    by (simp add: sample_count_def int_of_float_def)
  have s: "sine_samples F (Finite 440) (Finite 1) 44100 (Finite (1/2)) = Inr ?samples"
    by (rule sine_samples_returns [OF assms(1)]) simp_all
  have l: "length ?samples = 44100" by (simp add: n)
  have z: "?samples ! 0 = 0"
    by (simp add: n quantized_index_zero [OF assms(1)])
  have "(25 :: nat) < length [0..<44100]" by simp
  then have "map (quantized F 440 44100 (1/2)) [0..<44100] ! 25
               = quantized F 440 44100 (1/2) ([0..<44100] ! 25)"
    by (rule nth_map)
  also have "[0..<44100] ! 25 = (25 :: nat)"
    using nth_upt [of 0 25 44100] by simp
  finally have p: "?samples ! 25 = 16383"
    by (simp only: n quantized_peak [OF assms])
  from s l z p show ?thesis by blast
qed

theorem C8_scenario_witness:
  "float_arith_ok exact_arith \<and> float_accurate exact_arith
   \<and> (\<exists>samples.
        sine_samples exact_arith (Finite 440) (Finite 1) 44100 (Finite (1/2)) = Inr samples
        \<and> length samples = 44100 \<and> samples ! 0 = 0 \<and> samples ! 25 = 16383)"
  using C8_scenario [OF exact_arith_ok exact_accurate] exact_arith_ok exact_accurate
  by simp

text \<open>
  C9. For every valid ToneSpec with amplitude a such that 2a <= 1, the buffers
  synthesized with amplitudes a and 2a have the same length, and at every index the
  sample for 2a differs from twice the sample for a by at most 1, one quantization
  step. Doubling a float is exact, so that the two values given to \<^verbatim>\<open>int\<close> are one
  twice the other, except below the smallest normal float, where both samples are 0.
  No sample is clamped, since the code has no clamping step.
\<close>

theorem C9_amplitude_doubling:
  assumes "float_arith_ok F" and "doubling_exact F"
    and "valid_tone_spec frequency duration sample_rate amplitude"
    and "2 * amplitude \<le> 1"
    and "sine_samples F (Finite frequency) (Finite duration) sample_rate (Finite amplitude)
           = Inr samples"
    and "sine_samples F (Finite frequency) (Finite duration) sample_rate
           (Finite (2 * amplitude)) = Inr samples2"
    and "i < length samples"
  shows "length samples2 = length samples \<and> \<bar>samples2 ! i - 2 * samples ! i\<bar> \<le> 1"
proof -
  have len: "length samples2 = length samples"
    using sine_samples_length [OF assms(5)] sine_samples_length [OF assms(6)] by simp
  have s1: "samples ! i = int_of_float (scaled F frequency sample_rate amplitude i)"
    using sine_samples_nth [OF assms(5,7)] by (simp add: quantized_def)
  have s2: "samples2 ! i = int_of_float (scaled F frequency sample_rate (2 * amplitude) i)"
    using sine_samples_nth [OF assms(6)] assms(7) len by (simp add: quantized_def)
  show ?thesis
    using len scaled_double [OF assms(1,2), of frequency sample_rate amplitude i]
    by (simp add: s1 s2)
qed

theorem C9_amplitude_doubling_witness:
  "float_arith_ok exact_arith \<and> doubling_exact exact_arith
   \<and> valid_tone_spec 1 (1/2) 4 (1/4) \<and> 2 * (1/4 :: real) \<le> 1
   \<and> sine_samples exact_arith (Finite 1) (Finite (1/2)) 4 (Finite (1/4)) = Inr [0, 8191]
   \<and> sine_samples exact_arith (Finite 1) (Finite (1/2)) 4 (Finite (2 * (1/4))) = Inr [0, 16383]
   \<and> (1 :: nat) < length [0, 8191 :: int]
   \<and> length [0, 16383 :: int] = length [0, 8191 :: int]
   \<and> \<bar>[0, 16383 :: int] ! 1 - 2 * [0, 8191 :: int] ! 1\<bar> \<le> 1"
proof -
  have v: "valid_tone_spec 1 (1/2) 4 (1/4)" by (simp add: valid_tone_spec_def)
  have h: "2 * (1/4 :: real) \<le> 1" by simp
  have s: "sine_samples exact_arith (Finite 1) (Finite (1/2)) 4 (Finite (1/4)) = Inr [0, 8191]"
    by (simp add: samples_quarter int_of_float_def)
  have s2: "sine_samples exact_arith (Finite 1) (Finite (1/2)) 4 (Finite (2 * (1/4)))
              = Inr [0, 16383]"
    by (simp add: samples_quarter int_of_float_def)
  have l: "(1 :: nat) < length [0, 8191 :: int]" by simp
  show ?thesis
    using C9_amplitude_doubling [OF exact_arith_ok exact_doubling v h s s2 l]
      exact_arith_ok exact_doubling v s s2
    by simp
qed

text \<open>
  C10. For every call with 0 < amplitude <= 1, whatever the other arguments, every
  sample of a returned buffer lies in [-32767, 32767], so that -32768 never occurs, and
  \<^verbatim>\<open>struct.pack('<h', _)\<close> succeeds on each of them. With a positive sample rate below
  \<open>2^31\<close> and at most 2147483629 samples, the limits of the 32-bit header fields, the
  write loop and the close complete without an error.
\<close>

theorem C10_symmetric_range:
  assumes "float_arith_ok F" and "0 < amplitude" and "amplitude \<le> 1"
    and "sine_samples F (Finite frequency) (Finite duration) sample_rate (Finite amplitude)
           = Inr samples"
  shows "(\<forall>s \<in> set samples. - 32767 \<le> s \<and> s \<le> 32767 \<and> (\<exists>bs. pack_h s = Inr bs))
         \<and> (0 < sample_rate \<and> sample_rate < 2 ^ 31 \<and> length samples \<le> 2147483629 \<longrightarrow>
            (\<exists>wav. write_wav sample_rate samples = Inr wav))"
proof -
  have a: "\<bar>amplitude\<bar> \<le> 1" using assms(2,3) by simp
  have r: "- 32767 \<le> s \<and> s \<le> 32767" if "s \<in> set samples" for s
    using samples_in_range [OF assms(1) a assms(4) that] by simp
  then have r': "\<forall>s \<in> set samples. - 32768 \<le> s \<and> s \<le> 32767" by fastforce
  have p: "\<exists>bs. pack_h s = Inr bs" if "s \<in> set samples" for s
    using r [OF that] by (simp add: pack_h_def)
  have "\<exists>wav. write_wav sample_rate samples = Inr wav"
    if "0 < sample_rate \<and> sample_rate < 2 ^ 31 \<and> length samples \<le> 2147483629"
    using that write_wav_ok [OF _ _ r', of sample_rate] by blast
  with r p show ?thesis by blast
qed

theorem C10_symmetric_range_witness:
  "float_arith_ok exact_arith \<and> (0 :: real) < 1 \<and> (1 :: real) \<le> 1
   \<and> sine_samples exact_arith (Finite 1) (Finite (1/2)) 4 (Finite 1) = Inr [0, 32767]
   \<and> (0 :: int) < 4 \<and> (4 :: int) < 2 ^ 31 \<and> length [0, 32767 :: int] \<le> 2147483629
   \<and> (32767 :: int) \<in> set [0, 32767]
   \<and> - 32767 \<le> (32767 :: int) \<and> (32767 :: int) \<le> 32767
   \<and> (\<exists>bs. pack_h 32767 = Inr bs)
   \<and> (\<exists>wav. write_wav 4 [0, 32767] = Inr wav)"
proof -
  have p: "(0 :: real) < 1" and q: "(1 :: real) \<le> 1" by simp_all
  have s: "sine_samples exact_arith (Finite 1) (Finite (1/2)) 4 (Finite 1) = Inr [0, 32767]"
    by (simp add: samples_quarter int_of_float_def)
  show ?thesis
    using C10_symmetric_range [OF exact_arith_ok p q s] exact_arith_ok s by simp
qed

end
